theory Spec2Isabelle
  imports Main
begin

section \<open>Python strings\<close>

text \<open>
  A Python \<open>str\<close> is a sequence of Unicode code points and \<open>len\<close> counts code points,
  so a string is modelled as a list of code points. ASCII literals are written through
  \<open>py\<close>.
\<close>

type_synonym pystr = "nat list"

definition py :: "string \<Rightarrow> pystr" where
  "py s = map of_char s"

text \<open>
  \<open>str.splitlines(keepends=True)\<close>: a line ends after a line boundary (LF, VT, FF, CR,
  FS, GS, RS, NEL, LS, PS), CR LF counts as one boundary, every line keeps its boundary,
  and a last line without a boundary is kept when it is not empty.
\<close>

definition is_linebreak :: "nat \<Rightarrow> bool" where
  "is_linebreak c = (c \<in> {10, 11, 12, 13, 28, 29, 30, 133, 8232, 8233})"

fun splitlines_from :: "pystr \<Rightarrow> pystr \<Rightarrow> pystr list" where
  "splitlines_from cur [] = (if cur = [] then [] else [cur])"
| "splitlines_from cur (c # d # cs) =
     (if c = 13 \<and> d = 10 then (cur @ [c, d]) # splitlines_from [] cs
      else if is_linebreak c then (cur @ [c]) # splitlines_from [] (d # cs)
      else splitlines_from (cur @ [c]) (d # cs))"
| "splitlines_from cur [c] =
     (if is_linebreak c then [cur @ [c]] else splitlines_from (cur @ [c]) [])"

definition splitlines :: "pystr \<Rightarrow> pystr list" where
  "splitlines s = splitlines_from [] s"

section \<open>Chunking of long messages\<close>

text \<open>
  \<open>_split_message(md, limit)\<close>: the loop over the lines carries \<open>out\<close> and \<open>buf\<close>;
  a line that would take the buffer over the limit flushes the buffer first, whatever the
  buffer holds. After the loop a non-empty buffer is appended.
\<close>

fun split_loop :: "int \<Rightarrow> pystr list \<Rightarrow> pystr list \<Rightarrow> pystr \<Rightarrow> pystr list \<times> pystr" where
  "split_loop limit [] out buf = (out, buf)"
| "split_loop limit (line # lines) out buf =
     (if int (length buf) + int (length line) > limit
      then split_loop limit lines (out @ [buf]) line
      else split_loop limit lines out (buf @ line))"

definition split_message :: "pystr \<Rightarrow> int \<Rightarrow> pystr list" where
  "split_message md limit =
     (case split_loop limit (splitlines md) [] [] of
        (out, buf) \<Rightarrow> if buf \<noteq> [] then out @ [buf] else out)"

section \<open>Python helpers\<close>

text \<open>
  Exceptions are values. \<open>External n\<close> stands for an exception raised by an external
  collaborator (a search provider or the reasoning service), the other constructors for
  the Python built-in exceptions the code can raise itself.
\<close>

datatype py_error =
  IndexError | KeyError | TypeError | AttributeError | UnboundLocalError | External nat

text \<open>\<open>xs[i]\<close> on a list: a negative index counts from the end, out of range raises.\<close>

definition py_index :: "'a list \<Rightarrow> int \<Rightarrow> py_error + 'a" where
  "py_index xs i =
     (if 0 \<le> i \<and> i < int (length xs) then Inr (xs ! nat i)
      else if i < 0 \<and> - int (length xs) \<le> i then Inr (xs ! nat (int (length xs) + i))
      else Inl IndexError)"

text \<open>\<open>str.strip()\<close> removes leading and trailing Unicode whitespace.\<close>

definition is_space :: "nat \<Rightarrow> bool" where
  "is_space c =
     (c \<in> {9, 10, 11, 12, 13, 28, 29, 30, 31, 32, 133, 160, 5760, 8232, 8233, 8239, 8287, 12288}
      \<or> (8192 \<le> c \<and> c \<le> 8202))"

definition strip :: "pystr \<Rightarrow> pystr" where
  "strip s = rev (dropWhile is_space (rev (dropWhile is_space s)))"

text \<open>\<open>s.split("\n")\<close> cuts at every LF and always returns at least one piece.\<close>

fun split_nl_from :: "pystr \<Rightarrow> pystr \<Rightarrow> pystr list" where
  "split_nl_from cur [] = [cur]"
| "split_nl_from cur (c # cs) =
     (if c = 10 then cur # split_nl_from [] cs else split_nl_from (cur @ [c]) cs)"

definition split_nl :: "pystr \<Rightarrow> pystr list" where
  "split_nl s = split_nl_from [] s"

text \<open>\<open>"\n".join(xs)\<close> on strings.\<close>

fun join_nl :: "pystr list \<Rightarrow> pystr" where
  "join_nl [] = []"
| "join_nl [x] = x"
| "join_nl (x # y # ys) = x @ [10] @ join_nl (y # ys)"

text \<open>
  \<open>"\n".join(xs)\<close> on a list whose items may be \<open>None\<close>: a \<open>None\<close> item raises
  \<open>TypeError\<close>.
\<close>

definition py_join_nl :: "pystr option list \<Rightarrow> py_error + pystr" where
  "py_join_nl xs = (if None \<in> set xs then Inl TypeError else Inr (join_nl (map the xs)))"

text \<open>
  \<open>str.lower()\<close>, on the ASCII letters. The result is only compared with ASCII words,
  and no code point outside ASCII lowers to one of their letters.
\<close>

definition lower :: "pystr \<Rightarrow> pystr" where
  "lower s = map (\<lambda>c. if 65 \<le> c \<and> c \<le> 90 then c + 32 else c) s"

text \<open>
  A \<open>dict\<close> keeps insertion order: \<open>d[k] = v\<close> replaces the value of a key in place and
  appends a new key at the end.
\<close>

fun dict_set :: "('k \<times> 'v) list \<Rightarrow> 'k \<Rightarrow> 'v \<Rightarrow> ('k \<times> 'v) list" where
  "dict_set [] k v = [(k, v)]"
| "dict_set ((k', v') # kvs) k v =
     (if k' = k then (k, v) # kvs else (k', v') # dict_set kvs k v)"

text \<open>\<open>d.get(key, default)\<close> where \<open>None\<close> stands for a missing key.\<close>

definition dict_get :: "'v option \<Rightarrow> 'v \<Rightarrow> 'v" where
  "dict_get entry dflt = (case entry of None \<Rightarrow> dflt | Some v \<Rightarrow> v)"

text \<open>\<open>x or []\<close> on a list that may be missing or \<open>None\<close>.\<close>

definition or_empty :: "'a list option \<Rightarrow> 'a list" where
  "or_empty xs = (case xs of None \<Rightarrow> [] | Some ys \<Rightarrow> ys)"

section \<open>Search aggregation\<close>

text \<open>
  The values of the providers' JSON fields that the code reads are strings or \<open>None\<close>.
  In the records of a provider's answer a field is \<open>None\<close> when the key is missing.
\<close>

datatype pyval = PNone | PStr pystr

definition truthy :: "pyval \<Rightarrow> bool" where
  "truthy v = (case v of PNone \<Rightarrow> False | PStr s \<Rightarrow> s \<noteq> [])"

record tavily_hit =
  hit_url :: "pyval option"
  hit_title :: "pyval option"

record tavily_response =
  results :: "tavily_hit list option"

record extracted =
  ex_url :: "pyval option"
  raw_content :: "pyval option"

record extract_response =
  ex_results :: "extracted list option"
  failed_results :: "pyval option list option"

record organic =
  link :: "pyval option"
  o_title :: "pyval option"
  snippet :: "pyval option"

record serp_response =
  organic_results :: "organic list option"

text \<open>An entry of the evidence list: the key \<open>content\<close> may be absent.\<close>

record source =
  url :: pyval
  title :: pyval
  content :: "pyval option"

text \<open>
  The three calls to the providers. Each either returns its answer or raises
  (\<open>Inl\<close>).
\<close>

record providers =
  tavily_client_search :: "pystr \<Rightarrow> py_error + tavily_response"
  tavily_client_extract :: "pyval list \<Rightarrow> py_error + extract_response"
  serp_get_dict :: "pystr \<Rightarrow> py_error + serp_response"

definition context_sources :: "tavily_response \<Rightarrow> source list" where
  "context_sources response =
     map (\<lambda>result. \<lparr>url = dict_get (hit_url result) (PStr []),
                     title = dict_get (hit_title result) (PStr []),
                     content = None\<rparr>)
       (or_empty (results response))"

definition urls_to_extract :: "source list \<Rightarrow> pyval list" where
  "urls_to_extract sources = map url (filter (\<lambda>s. truthy (url s)) sources)"

text \<open>The two nested loops that attach the extracted content to the matching entries.\<close>

definition attach :: "extracted \<Rightarrow> source list \<Rightarrow> source list" where
  "attach ex sources =
     map (\<lambda>s. if url s = dict_get (ex_url ex) PNone
              then s\<lparr>content := Some (dict_get (raw_content ex) (PStr []))\<rparr> else s) sources"

definition enrich :: "extract_response \<Rightarrow> source list \<Rightarrow> source list" where
  "enrich er sources = fold attach (or_empty (ex_results er)) sources"

definition failed_urls :: "extract_response \<Rightarrow> pyval set" where
  "failed_urls er = set (map (\<lambda>item. dict_get item PNone) (or_empty (failed_results er)))"

definition tavily_search :: "providers \<Rightarrow> pystr \<Rightarrow> py_error + source list" where
  "tavily_search P q =
     (case tavily_client_search P q of
        Inl e \<Rightarrow> Inl e
      | Inr response \<Rightarrow>
          let sources = context_sources response in
          if urls_to_extract sources = [] then Inr sources
          else (case tavily_client_extract P (urls_to_extract sources) of
                  Inl e \<Rightarrow> Inl e
                | Inr er \<Rightarrow>
                    let sources' = enrich er sources in
                    if failed_urls er \<noteq> {}
                    then Inr (filter (\<lambda>s. url s \<notin> failed_urls er) sources')
                    else Inr sources'))"

definition serp_rows :: "serp_response \<Rightarrow> source list" where
  "serp_rows res =
     map (\<lambda>item. \<lparr>url = dict_get (link item) (PStr []),
                   title = dict_get (o_title item) (PStr []),
                   content = Some (dict_get (snippet item) (PStr []))\<rparr>)
       (take 5 (or_empty (organic_results res)))"

definition serp_search :: "providers \<Rightarrow> pystr \<Rightarrow> py_error + source list" where
  "serp_search P q =
     (case serp_get_dict P q of Inl e \<Rightarrow> Inl e | Inr res \<Rightarrow> Inr (serp_rows res))"

text \<open>
  \<open>tavily_search(query) + serp_search(query)\<close>: the left operand is evaluated first, and
  an exception of either call leaves \<open>search_web\<close>.
\<close>

definition search_web :: "providers \<Rightarrow> pystr \<Rightarrow> py_error + source list" where
  "search_web P q =
     (case tavily_search P q of
        Inl e \<Rightarrow> Inl e
      | Inr a \<Rightarrow> (case serp_search P q of Inl e \<Rightarrow> Inl e | Inr b \<Rightarrow> Inr (a @ b)))"

section \<open>The reasoning service\<close>

text \<open>
  An event of a runner carries an optional content, whose \<open>parts\<close> may be \<open>None\<close> and
  whose parts each have a \<open>text\<close> attribute that may be \<open>None\<close>. A run is the list of
  events the runner yields and the way the iteration ends: normally, or with an exception
  of the service.
\<close>

datatype part = Part (part_text: "pystr option")

datatype content_obj = Content (parts: "part list option")

record event =
  is_final_response :: bool
  ev_content :: "content_obj option"

datatype stream_end = Done | Raise py_error

datatype runner_key = Clarify | Refine | Planner | Search | Writer | Email

record call =
  runner :: runner_key
  user_id :: pystr
  session_id :: pystr
  new_message :: "pystr option"

text \<open>
  Everything the bot does to the outside is appended to one trace, in order: replies and
  chat actions on the messaging channel, session creation and runner calls.
\<close>

datatype effect =
  SendTyping
| ReplyText pystr
| ReplyMarkdownV2 pystr
| CreateSession pystr pystr
| RunAsync call

fun calls_of :: "effect list \<Rightarrow> call list" where
  "calls_of [] = []"
| "calls_of (RunAsync c # es) = c # calls_of es"
| "calls_of (e # es) = calls_of es"

text \<open>
  The service is any function from the calls made so far and the present call to a run:
  the runners share one session service, so an answer may depend on the earlier calls.
\<close>

type_synonym service = "call list \<Rightarrow> call \<Rightarrow> event list \<times> stream_end"

section \<open>The report pipeline\<close>

text \<open>
  The loop of the refine stage: the first final event whose \<open>parts\<close> is a non-empty list
  binds \<open>refined_query\<close> to the text of its first part and leaves the loop. A final event
  without content raises \<open>AttributeError\<close>. \<open>Inr None\<close>: the loop ended and the variable
  is unbound.
\<close>

fun refine_loop :: "event list \<Rightarrow> stream_end \<Rightarrow> py_error + pystr option option" where
  "refine_loop [] Done = Inr None"
| "refine_loop [] (Raise e) = Inl e"
| "refine_loop (ev # evs) en =
     (if is_final_response ev then
        (case ev_content ev of
           None \<Rightarrow> Inl AttributeError
         | Some c \<Rightarrow>
             (case parts c of
                None \<Rightarrow> refine_loop evs en
              | Some [] \<Rightarrow> refine_loop evs en
              | Some (p # ps) \<Rightarrow> Inr (Some (part_text p))))
      else refine_loop evs en)"

text \<open>
  The loop of the planner stage: the first final event with a content binds
  \<open>search_plan\<close> to the text of the first part and leaves the loop; \<open>parts[0]\<close> raises
  on \<open>None\<close> and on the empty list.
\<close>

fun planner_loop :: "event list \<Rightarrow> stream_end \<Rightarrow> py_error + pystr option option" where
  "planner_loop [] Done = Inr None"
| "planner_loop [] (Raise e) = Inl e"
| "planner_loop (ev # evs) en =
     (if is_final_response ev \<and> ev_content ev \<noteq> None then
        (case parts (the (ev_content ev)) of
           None \<Rightarrow> Inl TypeError
         | Some [] \<Rightarrow> Inl IndexError
         | Some (p # ps) \<Rightarrow> Inr (Some (part_text p)))
      else planner_loop evs en)"

text \<open>
  The loop of the search and of the writer stage: every final event with a content
  appends the text of each of its parts (each part has the attribute \<open>text\<close>); the loop
  runs to the end of the run.
\<close>

fun collect_loop :: "event list \<Rightarrow> stream_end \<Rightarrow> pystr option list \<Rightarrow> py_error + pystr option list" where
  "collect_loop [] Done acc = Inr acc"
| "collect_loop [] (Raise e) acc = Inl e"
| "collect_loop (ev # evs) en acc =
     (if is_final_response ev \<and> ev_content ev \<noteq> None then
        (case parts (the (ev_content ev)) of
           None \<Rightarrow> Inl TypeError
         | Some ps \<Rightarrow> collect_loop evs en (acc @ map part_text ps))
      else collect_loop evs en acc)"

definition combined_query :: "pystr \<Rightarrow> (pystr \<times> pystr) list \<Rightarrow> pystr" where
  "combined_query qry ans =
     py ''User query: '' @ qry @ [10, 10] @ join_nl (map (\<lambda>(q, a). q @ py ''->'' @ a) ans)"

definition create_report_pipline ::
  "service \<Rightarrow> pystr \<Rightarrow> pystr \<Rightarrow> (pystr \<times> pystr) list \<Rightarrow> effect list \<Rightarrow> (py_error + pystr) \<times> effect list"
where
  "create_report_pipline svc uid qry ans tr0 =
     (let sid = py ''tg_'' @ uid;
          c1 = \<lparr>runner = Refine, user_id = uid, session_id = sid,
                new_message = Some (combined_query qry ans)\<rparr>;
          s1 = svc (calls_of tr0) c1;
          tr1 = tr0 @ [RunAsync c1]
      in case refine_loop (fst s1) (snd s1) of
           Inl e \<Rightarrow> (Inl e, tr1)
         | Inr None \<Rightarrow> (Inl UnboundLocalError, tr1)
         | Inr (Some refined_query) \<Rightarrow>
             let c2 = \<lparr>runner = Planner, user_id = uid, session_id = sid,
                       new_message = refined_query\<rparr>;
                 s2 = svc (calls_of tr1) c2;
                 tr2 = tr1 @ [RunAsync c2]
             in case planner_loop (fst s2) (snd s2) of
                  Inl e \<Rightarrow> (Inl e, tr2)
                | Inr None \<Rightarrow> (Inl UnboundLocalError, tr2)
                | Inr (Some search_plan) \<Rightarrow>
                    let c3 = \<lparr>runner = Search, user_id = uid, session_id = sid,
                              new_message = search_plan\<rparr>;
                        s3 = svc (calls_of tr2) c3;
                        tr3 = tr2 @ [RunAsync c3]
                    in case collect_loop (fst s3) (snd s3) [] of
                         Inl e \<Rightarrow> (Inl e, tr3)
                       | Inr fragments \<Rightarrow>
                           (case py_join_nl fragments of
                              Inl e \<Rightarrow> (Inl e, tr3)
                            | Inr search_results \<Rightarrow>
                                let c4 = \<lparr>runner = Writer, user_id = uid, session_id = sid,
                                          new_message = Some search_results\<rparr>;
                                    s4 = svc (calls_of tr3) c4;
                                    tr4 = tr3 @ [RunAsync c4]
                                in case collect_loop (fst s4) (snd s4) [] of
                                     Inl e \<Rightarrow> (Inl e, tr4)
                                   | Inr full_report_parts \<Rightarrow>
                                       (case py_join_nl full_report_parts of
                                          Inl e \<Rightarrow> (Inl e, tr4)
                                        | Inr rep \<Rightarrow> (Inr rep, tr4))))"

section \<open>The conversation\<close>

datatype Stage = WAITING_QUERY | ASKING | EMAIL_DECISION | EMAIL_ADDR

text \<open>The per-user dictionary \<open>context.user_data\<close>: a field is \<open>None\<close> when its key is absent.\<close>

record user_data =
  stage :: "Stage option"
  questions :: "pystr list option"
  query :: "pystr option"
  answers :: "(pystr \<times> pystr) list option"
  q_idx :: "int option"
  report :: "pystr option"

definition cleared :: user_data where
  "cleared = \<lparr>stage = None, questions = None, query = None, answers = None,
              q_idx = None, report = None\<rparr>"

text \<open>
  \<open>escape_markdown(chunk, version=2)\<close> of the messaging library puts a backslash before
  each of \<open>\_*[]()~`>#+-=|{}.!\<close>.
\<close>

definition escape_markdown :: "pystr \<Rightarrow> pystr" where
  "escape_markdown s =
     concat (map (\<lambda>c. if c \<in> {92, 95, 42, 91, 93, 40, 41, 126, 96, 62, 35, 43, 45, 61, 124,
                                 123, 125, 46, 33}
                       then [92, c] else [c]) s)"

definition msg_greeting :: pystr where
  "msg_greeting = [128075] @ py '' Hi! I'' @ [39] @
     py ''m a research assistant.Send me any research question and I'' @ [39] @
     py ''ll investigate.''"

definition msg_bye :: pystr where
  "msg_bye = py ''Bye! See you next time.''"

definition msg_working :: pystr where
  "msg_working = py ''I have all the information I need. I'' @ [39] @
     py ''m working on your report now.''"

definition msg_email_question :: pystr where
  "msg_email_question = py ''Do you want to email the report to yourself? (yes/no)''"

definition msg_provide_address :: pystr where
  "msg_provide_address = py ''Great! Please provide the email address.''"

definition msg_no_problem :: pystr where
  "msg_no_problem = py ''No problem. Do you have any question?''"

definition msg_not_an_address :: pystr where
  "msg_not_an_address = py ''That doesn'' @ [39] @
     py ''t look like an e-mail address. Try again.''"

definition msg_sent :: pystr where
  "msg_sent = py ''Sent! '' @ [9989]"

text \<open>
  The loop of the \<open>WAITING_QUERY\<close> branch: every final event with a content rebinds
  \<open>questions\<close> to the stripped non-blank lines of the text of its first part.
\<close>

definition parse_questions :: "pystr \<Rightarrow> pystr list" where
  "parse_questions t = map strip (filter (\<lambda>q. strip q \<noteq> []) (split_nl t))"

fun clarify_loop :: "event list \<Rightarrow> stream_end \<Rightarrow> pystr list \<Rightarrow> py_error + pystr list" where
  "clarify_loop [] Done qs = Inr qs"
| "clarify_loop [] (Raise e) qs = Inl e"
| "clarify_loop (ev # evs) en qs =
     (if is_final_response ev \<and> ev_content ev \<noteq> None then
        (case parts (the (ev_content ev)) of
           None \<Rightarrow> Inl TypeError
         | Some [] \<Rightarrow> Inl IndexError
         | Some (p # ps) \<Rightarrow>
             (case part_text p of
                None \<Rightarrow> Inl AttributeError
              | Some t \<Rightarrow> clarify_loop evs en (parse_questions t)))
      else clarify_loop evs en qs)"

text \<open>The loop of the \<open>EMAIL_ADDR\<close> branch leaves at the first final event.\<close>

fun email_loop :: "event list \<Rightarrow> stream_end \<Rightarrow> py_error + unit" where
  "email_loop [] Done = Inr ()"
| "email_loop [] (Raise e) = Inl e"
| "email_loop (ev # evs) en = (if is_final_response ev then Inr () else email_loop evs en)"

text \<open>
  \<open>handle_text\<close>, one definition for each of its four branches. The result is the
  exception that leaves the handler, if any, the dictionary and the trace as they are at
  that moment. The calls to the messaging channel and \<open>create_session\<close> are taken to
  return.
\<close>

definition handle_waiting_query ::
  "service \<Rightarrow> pystr \<Rightarrow> pystr \<Rightarrow> user_data \<Rightarrow> effect list \<Rightarrow> py_error option \<times> user_data \<times> effect list"
where
  "handle_waiting_query svc uid txt d tr =
     (let c = \<lparr>runner = Clarify, user_id = uid, session_id = py ''tg_'' @ uid,
               new_message = Some txt\<rparr>;
          tr1 = tr @ [SendTyping, CreateSession uid (py ''tg_'' @ uid)];
          s = svc (calls_of tr1) c;
          tr2 = tr1 @ [RunAsync c]
      in case clarify_loop (fst s) (snd s) [] of
           Inl e \<Rightarrow> (Some e, d, tr2)
         | Inr qs \<Rightarrow>
             let d' = d\<lparr>stage := Some ASKING, questions := Some (drop 1 qs),
                        query := Some txt, answers := Some [], q_idx := Some 0\<rparr>
             in (case py_index (drop 1 qs) 0 of
                   Inl e \<Rightarrow> (Some e, d', tr2)
                 | Inr q0 \<Rightarrow> (None, d', tr2 @ [ReplyText q0])))"

definition handle_asking ::
  "service \<Rightarrow> pystr \<Rightarrow> pystr \<Rightarrow> user_data \<Rightarrow> effect list \<Rightarrow> py_error option \<times> user_data \<times> effect list"
where
  "handle_asking svc uid txt d tr =
     (case q_idx d of
        None \<Rightarrow> (Some KeyError, d, tr)
      | Some i \<Rightarrow>
     (case questions d of
        None \<Rightarrow> (Some KeyError, d, tr)
      | Some qs \<Rightarrow>
     (case py_index qs i of
        Inl e \<Rightarrow> (Some e, d, tr)
      | Inr current_q \<Rightarrow>
     (case answers d of
        None \<Rightarrow> (Some KeyError, d, tr)
      | Some ans \<Rightarrow>
          let d1 = d\<lparr>answers := Some (dict_set ans current_q txt), q_idx := Some (i + 1)\<rparr>
          in if i < 2 then
               (case py_index qs (i + 1) of
                  Inl e \<Rightarrow> (Some e, d1, tr)
                | Inr next_q \<Rightarrow> (None, d1, tr @ [ReplyText next_q]))
             else
               let tr1 = tr @ [ReplyText msg_working, SendTyping]
               in (case query d1 of
                     None \<Rightarrow> (Some KeyError, d1, tr1)
                   | Some qry \<Rightarrow>
                       (case create_report_pipline svc uid qry (dict_set ans current_q txt) tr1 of
                          (Inl e, tr2) \<Rightarrow> (Some e, d1, tr2)
                        | (Inr rep, tr2) \<Rightarrow>
                            (None,
                             d1\<lparr>report := Some rep, stage := Some EMAIL_DECISION\<rparr>,
                             tr2 @ map (\<lambda>chunk. ReplyMarkdownV2 (escape_markdown chunk))
                                       (split_message rep 4096)
                                 @ [ReplyText msg_email_question])))))))"

definition handle_email_decision ::
  "pystr \<Rightarrow> user_data \<Rightarrow> effect list \<Rightarrow> py_error option \<times> user_data \<times> effect list"
where
  "handle_email_decision txt d tr =
     (if lower txt \<in> {py ''yes'', py ''y'', py ''yeah'', py ''sure''}
      then (None, d\<lparr>stage := Some EMAIL_ADDR\<rparr>, tr @ [ReplyText msg_provide_address])
      else (None, d\<lparr>stage := Some WAITING_QUERY\<rparr>, tr @ [ReplyText msg_no_problem]))"

definition email_prompt :: "pystr \<Rightarrow> pystr \<Rightarrow> pystr" where
  "email_prompt rep email =
     py ''Report to send:'' @ [10, 10] @ rep @ [10, 10] @ py ''E-mail address: '' @ email"

definition handle_email_addr ::
  "service \<Rightarrow> pystr \<Rightarrow> pystr \<Rightarrow> user_data \<Rightarrow> effect list \<Rightarrow> py_error option \<times> user_data \<times> effect list"
where
  "handle_email_addr svc uid txt d tr =
     (let email = strip txt
      in if 64 \<notin> set email then (None, d, tr @ [ReplyText msg_not_an_address])
         else
           let tr1 = tr @ [SendTyping]
           in (case report d of
                 None \<Rightarrow> (Some KeyError, d, tr1)
               | Some rep \<Rightarrow>
                   let c = \<lparr>runner = Email, user_id = uid, session_id = py ''tg_'' @ uid,
                            new_message = Some (email_prompt rep email)\<rparr>;
                       s = svc (calls_of tr1) c;
                       tr2 = tr1 @ [RunAsync c]
                   in (case email_loop (fst s) (snd s) of
                         Inl e \<Rightarrow> (Some e, d, tr2)
                       | Inr u \<Rightarrow>
                           (None, d\<lparr>stage := Some WAITING_QUERY\<rparr>,
                            tr2 @ [ReplyText msg_sent]))))"

definition handle_text ::
  "service \<Rightarrow> pystr \<Rightarrow> pystr \<Rightarrow> user_data \<Rightarrow> effect list \<Rightarrow> py_error option \<times> user_data \<times> effect list"
where
  "handle_text svc uid message_text d tr =
     (let txt = strip message_text
      in case dict_get (stage d) WAITING_QUERY of
           WAITING_QUERY \<Rightarrow> handle_waiting_query svc uid txt d tr
         | ASKING \<Rightarrow> handle_asking svc uid txt d tr
         | EMAIL_DECISION \<Rightarrow> handle_email_decision txt d tr
         | EMAIL_ADDR \<Rightarrow> handle_email_addr svc uid txt d tr)"

text \<open>The two commands; the second definition of \<open>cancel\<close> is the one in force.\<close>

definition start :: "user_data \<Rightarrow> effect list \<Rightarrow> user_data \<times> effect list" where
  "start d tr = (cleared\<lparr>stage := Some WAITING_QUERY\<rparr>, tr @ [ReplyText msg_greeting])"

definition cancel :: "user_data \<Rightarrow> effect list \<Rightarrow> user_data \<times> effect list" where
  "cancel d tr = (cleared, tr @ [ReplyText msg_bye])"

text \<open>
  The updates the application routes to a handler: a text that is not a command, and the
  commands \<open>/start\<close> and \<open>/cancel\<close>. An exception that leaves a handler ends that update
  only; the dictionary keeps what the handler had written.
\<close>

datatype update = TextMessage pystr | StartCommand | CancelCommand

fun dispatch :: "service \<Rightarrow> pystr \<Rightarrow> user_data \<times> effect list \<Rightarrow> update \<Rightarrow> user_data \<times> effect list" where
  "dispatch svc uid (d, tr) (TextMessage t) = snd (handle_text svc uid t d tr)"
| "dispatch svc uid (d, tr) StartCommand = start d tr"
| "dispatch svc uid (d, tr) CancelCommand = cancel d tr"

definition run_updates :: "service \<Rightarrow> pystr \<Rightarrow> update list \<Rightarrow> user_data \<times> effect list" where
  "run_updates svc uid us = foldl (dispatch svc uid) (cleared, []) us"

section \<open>Notions of the specification and concrete inputs\<close>

text \<open>The text fragments of an event: the \<open>text\<close> of each part of its content.\<close>

definition fragments :: "event \<Rightarrow> pystr option list" where
  "fragments ev =
     (case ev_content ev of None \<Rightarrow> [] | Some c \<Rightarrow> map part_text (or_empty (parts c)))"




definition two_providers :: providers where
  "two_providers =
     \<lparr>tavily_client_search = (\<lambda>q. Inr \<lparr>results =
         Some [\<lparr>hit_url = Some (PStr [117, 49]), hit_title = Some (PStr [97])\<rparr>,
               \<lparr>hit_url = Some (PStr [117, 50]), hit_title = Some (PStr [98])\<rparr>]\<rparr>),
      tavily_client_extract = (\<lambda>us. Inr
         \<lparr>ex_results = Some [\<lparr>ex_url = Some (PStr [117, 49]), raw_content = Some (PStr [99])\<rparr>],
          failed_results = Some [Some (PStr [117, 50])]\<rparr>),
      serp_get_dict = (\<lambda>q. Inr \<lparr>organic_results =
         Some [\<lparr>link = Some (PStr [117, 49]), o_title = Some (PStr [97]),
                snippet = Some (PStr [115])\<rparr>]\<rparr>)\<rparr>"

text \<open>
  A reasoning service whose every run is one final event with the two fragments \<open>a\<close>
  and \<open>b\<close>.
\<close>

definition two_fragments :: service where
  "two_fragments = (\<lambda>earlier c.
     ([\<lparr>is_final_response = True,
        ev_content = Some (Content (Some [Part (Some [97]), Part (Some [98])]))\<rparr>], Done))"

text \<open>
  A reasoning service whose every run is one final event with the single fragment
  \<open>p\<close>, \<open>x\<close>, \<open>y\<close>, \<open>z\<close> on four lines; one whose every run raises at once; and one
  whose every run is one final event with the two lines \<open>p\<close> and \<open>x\<close>.
\<close>

definition demo_service :: service where
  "demo_service = (\<lambda>earlier c.
     ([\<lparr>is_final_response = True,
        ev_content = Some (Content (Some [Part (Some [112, 10, 120, 10, 121, 10, 122])]))\<rparr>],
      Done))"

definition refine_fails :: service where
  "refine_fails = (\<lambda>earlier c. ([], Raise (External 7)))"

definition one_question :: service where
  "one_question = (\<lambda>earlier c.
     ([\<lparr>is_final_response = True,
        ev_content = Some (Content (Some [Part (Some [112, 10, 120])]))\<rparr>], Done))"

text \<open>
  A reasoning service that answers like \<open>demo_service\<close>, except that every run of the
  email runner raises at once.
\<close>

definition email_fails :: service where
  "email_fails = (\<lambda>earlier c.
     if runner c = Email then ([], Raise (External 9)) else demo_service earlier c)"

text \<open>
  Sessions for the examples: in \<open>ASKING\<close> with the questions \<open>x\<close>, \<open>y\<close>, \<open>z\<close> after
  the answers given so far; after the report; and in \<open>ASKING\<close> with the single question
  \<open>x\<close>.
\<close>

definition asking2 :: user_data where
  "asking2 = \<lparr>stage = Some ASKING, questions = Some [[120], [121], [122]], query = Some [113],
     answers = Some [([120], [97]), ([121], [98])], q_idx = Some 2, report = None\<rparr>"

definition demo_asking :: "(pystr \<times> pystr) list \<Rightarrow> int \<Rightarrow> user_data" where
  "demo_asking ans i =
     \<lparr>stage = Some ASKING, questions = Some [[120], [121], [122]], query = Some [113],
      answers = Some ans, q_idx = Some i, report = None\<rparr>"

definition demo_done :: "Stage \<Rightarrow> user_data" where
  "demo_done st =
     \<lparr>stage = Some st, questions = Some [[120], [121], [122]], query = Some [113],
      answers = Some [([120], [97]), ([121], [98]), ([122], [99])], q_idx = Some 3,
      report = Some [112, 10, 120, 10, 121, 10, 122]\<rparr>"

definition one_asking :: user_data where
  "one_asking = \<lparr>stage = Some ASKING, questions = Some [[120]], query = Some [113],
     answers = Some [], q_idx = Some 0, report = None\<rparr>"

text \<open>The invariant of the session: in the two email stages the report is defined.\<close>

definition report_invariant :: "user_data \<Rightarrow> bool" where
  "report_invariant d =
     (stage d = Some EMAIL_DECISION \<or> stage d = Some EMAIL_ADDR \<longrightarrow> report d \<noteq> None)"

section \<open>Properties of the chunking\<close>

lemma concat_splitlines_from: "concat (splitlines_from cur s) = cur @ s"
  by (induction cur s rule: splitlines_from.induct) auto

lemma concat_splitlines: "concat (splitlines s) = s"
  by (simp add: splitlines_def concat_splitlines_from)

lemma splitlines_from_nonempty: "l \<in> set (splitlines_from cur s) \<Longrightarrow> l \<noteq> []"
  by (induction cur s rule: splitlines_from.induct) (auto split: if_splits)

lemma splitlines_nonempty: "l \<in> set (splitlines s) \<Longrightarrow> l \<noteq> []"
  unfolding splitlines_def by (rule splitlines_from_nonempty)

lemma split_loop_concat:
  "split_loop limit ls out buf = (out', buf') \<Longrightarrow>
   concat out' @ buf' = concat out @ buf @ concat ls"
  by (induction ls arbitrary: out buf) (auto split: if_splits)

text \<open>
  The loop keeps every flushed chunk and the buffer within the limit, or equal to one
  line that is longer than the limit.
\<close>

lemma split_loop_bound:
  assumes "split_loop limit ls out buf = (out', buf')"
    and "set ls \<subseteq> L"
    and "\<forall>c \<in> set out. int (length c) \<le> limit \<or> (c \<in> L \<and> limit < int (length c))"
    and "int (length buf) \<le> limit \<or> (buf \<in> L \<and> limit < int (length buf))"
  shows "(\<forall>c \<in> set out'. int (length c) \<le> limit \<or> (c \<in> L \<and> limit < int (length c)))
       \<and> (int (length buf') \<le> limit \<or> (buf' \<in> L \<and> limit < int (length buf')))"
  using assms
proof (induction ls arbitrary: out buf)
  case Nil
  then show ?case by simp
next
  case (Cons l ls)
  show ?case
  proof (cases "limit < int (length buf) + int (length l)")
    case True
    with Cons.prems have run: "split_loop limit ls (out @ [buf]) l = (out', buf')" by simp
    have line: "int (length l) \<le> limit \<or> (l \<in> L \<and> limit < int (length l))"
      using Cons.prems(2) by auto
    have flushed: "\<forall>c \<in> set (out @ [buf]).
        int (length c) \<le> limit \<or> (c \<in> L \<and> limit < int (length c))"
      using Cons.prems(3,4) by auto
    have "set ls \<subseteq> L" using Cons.prems(2) by simp
    from Cons.IH [OF run this flushed line] show ?thesis .
  next
    case False
    with Cons.prems have run: "split_loop limit ls out (buf @ l) = (out', buf')" by simp
    have grown: "int (length (buf @ l)) \<le> limit \<or> (buf @ l \<in> L \<and> limit < int (length (buf @ l)))"
      using False by simp
    have "set ls \<subseteq> L" using Cons.prems(2) by simp
    from Cons.IH [OF run this Cons.prems(3) grown] show ?thesis .
  qed
qed

text \<open>Every flushed chunk and the buffer are runs of whole consecutive lines.\<close>

lemma split_loop_groups:
  "split_loop limit ls out (concat g) = (out', buf') \<Longrightarrow>
   \<exists>gs g'. out' = out @ map concat gs \<and> buf' = concat g' \<and> concat gs @ g' = g @ ls"
proof (induction ls arbitrary: out g)
  case Nil
  then show ?case by (intro exI [of _ "[]"] exI [of _ g]) simp
next
  case (Cons l ls)
  show ?case
  proof (cases "limit < int (length (concat g)) + int (length l)")
    case True
    with Cons.prems have "split_loop limit ls (out @ [concat g]) (concat [l]) = (out', buf')"
      by simp
    from Cons.IH [OF this] obtain gs g' where
      h: "out' = (out @ [concat g]) @ map concat gs" "buf' = concat g'"
         "concat gs @ g' = [l] @ ls"
      by blast
    show ?thesis
      using h by (intro exI [of _ "g # gs"] exI [of _ g']) simp
  next
    case False
    with Cons.prems have "split_loop limit ls out (concat (g @ [l])) = (out', buf')" by simp
    from Cons.IH [OF this] obtain gs g' where
      h: "out' = out @ map concat gs" "buf' = concat g'" "concat gs @ g' = (g @ [l]) @ ls"
      by blast
    show ?thesis
      using h by (intro exI [of _ gs] exI [of _ g']) simp
  qed
qed

lemma split_loop_prefix:
  "split_loop limit ls out buf = (out', buf') \<Longrightarrow> \<exists>more. out' = out @ more"
  by (induction ls arbitrary: out buf) (fastforce split: if_splits)+

lemma concat_nonempty_nil: "concat g = [] \<Longrightarrow> \<forall>l \<in> set g. l \<noteq> [] \<Longrightarrow> g = []"
  by (cases g) auto

lemma split_message_concat: "concat (split_message md limit) = md"
proof -
  obtain out buf where run: "split_loop limit (splitlines md) [] [] = (out, buf)"
    by (cases "split_loop limit (splitlines md) [] []")
  from split_loop_concat [OF run] have "concat out @ buf = md"
    by (simp add: concat_splitlines)
  then show ?thesis
    by (auto simp: split_message_def run)
qed

lemma split_message_bound:
  assumes "0 \<le> limit"
  shows "\<forall>c \<in> set (split_message md limit).
           int (length c) \<le> limit \<or> (c \<in> set (splitlines md) \<and> limit < int (length c))"
proof -
  obtain out buf where run: "split_loop limit (splitlines md) [] [] = (out, buf)"
    by (cases "split_loop limit (splitlines md) [] []")
  have "(\<forall>c \<in> set out. int (length c) \<le> limit
            \<or> (c \<in> set (splitlines md) \<and> limit < int (length c)))
      \<and> (int (length buf) \<le> limit \<or> (buf \<in> set (splitlines md) \<and> limit < int (length buf)))"
    by (rule split_loop_bound [OF run]) (use assms in simp_all)
  then show ?thesis
    by (auto simp: split_message_def run)
qed

lemma split_message_groups:
  "\<exists>gs. concat gs = splitlines md \<and> split_message md limit = map concat gs"
proof -
  obtain out buf where run: "split_loop limit (splitlines md) [] [] = (out, buf)"
    by (cases "split_loop limit (splitlines md) [] []")
  then have "split_loop limit (splitlines md) [] (concat []) = (out, buf)" by simp
  from split_loop_groups [OF this] obtain gs g where
    h: "out = map concat gs" "buf = concat g" "concat gs @ g = splitlines md"
    by auto
  show ?thesis
  proof (cases "buf = []")
    case True
    have "\<forall>l \<in> set g. l \<noteq> []"
      using h(3) splitlines_nonempty [of _ md] by (metis Un_iff set_append)
    with True h(2) have "g = []" by (simp add: concat_nonempty_nil)
    with h True show ?thesis
      by (intro exI [of _ gs]) (simp add: split_message_def run)
  next
    case False
    with h show ?thesis
      by (intro exI [of _ "gs @ [g]"]) (simp add: split_message_def run)
  qed
qed

lemma split_message_first_long:
  assumes "splitlines md = l # ls" and "limit < int (length l)"
  shows "\<exists>rest. split_message md limit = [] # l # rest"
proof -
  have lne: "l \<noteq> []" using splitlines_nonempty [of l md] assms(1) by simp
  show ?thesis
  proof (cases ls)
    case Nil
    with assms lne show ?thesis by (simp add: split_message_def)
  next
    case (Cons l2 ls2)
    obtain out buf where run: "split_loop limit ls2 [[], l] l2 = (out, buf)"
      by (cases "split_loop limit ls2 [[], l] l2")
    from split_loop_prefix [OF run] obtain more where "out = [[], l] @ more" by blast
    with assms Cons run show ?thesis by (simp add: split_message_def)
  qed
qed

lemma splitlines_abc: "splitlines [97, 98, 99] = [[97, 98, 99]]"
  by (simp add: splitlines_def is_linebreak_def)

text \<open>
  Claim C3. For every text and every positive limit: the chunks of
  \<open>_split_message(text, limit)\<close> concatenate to the text; every chunk is no longer than
  the limit unless it is one single line of the text that is itself longer than the
  limit; and the chunks are runs of whole consecutive lines of the text, so that a
  chunk boundary only falls where \<open>splitlines\<close> already has a line boundary.
\<close>

theorem split_message_chunking:
  assumes "0 < limit"
  shows "concat (split_message md limit) = md
       \<and> (\<forall>c \<in> set (split_message md limit).
             int (length c) \<le> limit \<or> (c \<in> set (splitlines md) \<and> limit < int (length c)))
       \<and> (\<exists>gs. concat gs = splitlines md \<and> split_message md limit = map concat gs)"
proof (intro conjI)
  show "concat (split_message md limit) = md"
    by (rule split_message_concat)
  show "\<forall>c \<in> set (split_message md limit).
          int (length c) \<le> limit \<or> (c \<in> set (splitlines md) \<and> limit < int (length c))"
    by (rule split_message_bound) (use assms in simp)
  show "\<exists>gs. concat gs = splitlines md \<and> split_message md limit = map concat gs"
    by (rule split_message_groups)
qed

theorem split_message_chunking_witness:
  "(0::int) < 2
   \<and> split_message [97, 98, 99] 2 = [[], [97, 98, 99]]
   \<and> concat (split_message [97, 98, 99] 2) = [97, 98, 99]
   \<and> [97, 98, 99] \<in> set (splitlines [97, 98, 99])
   \<and> (2::int) < int (length [97, 98, 99 :: nat])
   \<and> (\<exists>gs. concat gs = splitlines [97, 98, 99] \<and> split_message [97, 98, 99] 2 = map concat gs)"
proof -
  have pos: "(0::int) < 2" by simp
  have val: "split_message [97, 98, 99] 2 = [[], [97, 98, 99]]"
    by (simp add: split_message_def splitlines_abc)
  note inst = split_message_chunking [OF pos, of "[97, 98, 99]"]
  from inst val have "int (length [97, 98, 99 :: nat]) \<le> 2
      \<or> ([97, 98, 99] \<in> set (splitlines [97, 98, 99]) \<and> 2 < int (length [97, 98, 99 :: nat]))"
    by simp
  then have line: "[97, 98, 99] \<in> set (splitlines [97, 98, 99])"
    and long: "(2::int) < int (length [97, 98, 99 :: nat])"
    by simp_all
  from inst pos val line long show ?thesis by blast
qed

text \<open>
  Claim C10. \<open>_split_message\<close> can return an empty chunk: on the text \<open>abc\<close> with
  limit 2 the empty string is among the chunks; and whenever the first line of the text
  is longer than the limit, the first chunk is the empty string and the second chunk is
  that line.
\<close>

theorem split_message_empty_first_chunk:
  "[] \<in> set (split_message [97, 98, 99] 2)
   \<and> (splitlines md = l # ls \<and> limit < int (length l)
        \<longrightarrow> (\<exists>rest. split_message md limit = [] # l # rest))"
proof (intro conjI impI)
  have "\<exists>rest. split_message [97, 98, 99] 2 = [] # [97, 98, 99] # rest"
    by (rule split_message_first_long [OF splitlines_abc]) simp
  then show "[] \<in> set (split_message [97, 98, 99] 2)" by auto
next
  assume "splitlines md = l # ls \<and> limit < int (length l)"
  then show "\<exists>rest. split_message md limit = [] # l # rest"
    using split_message_first_long by blast
qed

theorem split_message_empty_first_chunk_witness:
  "splitlines [97, 98, 99, 10, 100] = [97, 98, 99, 10] # [[100]]
   \<and> (3::int) < int (length [97, 98, 99, 10 :: nat])
   \<and> (\<exists>rest. split_message [97, 98, 99, 10, 100] 3 = [] # [97, 98, 99, 10] # rest)"
proof -
  have lines: "splitlines [97, 98, 99, 10, 100] = [97, 98, 99, 10] # [[100]]"
    by (simp add: splitlines_def is_linebreak_def)
  have long: "(3::int) < int (length [97, 98, 99, 10 :: nat])" by simp
  from split_message_empty_first_chunk [of "[97, 98, 99, 10, 100]" "[97, 98, 99, 10]" "[[100]]" 3]
    lines long
  show ?thesis by blast
qed

section \<open>Properties of the search aggregation\<close>

lemma attach_keys:
  "map (\<lambda>s. (url s, title s)) (attach ex srcs) = map (\<lambda>s. (url s, title s)) srcs"
  by (simp add: attach_def)

lemma fold_attach_keys:
  "map (\<lambda>s. (url s, title s)) (fold attach exs srcs) = map (\<lambda>s. (url s, title s)) srcs"
  by (induction exs arbitrary: srcs) (simp_all add: attach_keys)

lemma enrich_keys:
  "map (\<lambda>s. (url s, title s)) (enrich er srcs) = map (\<lambda>s. (url s, title s)) srcs"
  by (simp add: enrich_def fold_attach_keys)

lemma filter_keys:
  "map (\<lambda>s. (url s, title s)) (filter (\<lambda>s. url s \<notin> F) xs)
   = filter (\<lambda>(u, t). u \<notin> F) (map (\<lambda>s. (url s, title s)) xs)"
  by (induction xs) auto

lemma tavily_search_extracted:
  assumes "tavily_client_search P q = Inr response"
    and "urls_to_extract (context_sources response) \<noteq> []"
    and "tavily_search P q = Inr a"
  shows "\<exists>er. tavily_client_extract P (urls_to_extract (context_sources response)) = Inr er
            \<and> a = filter (\<lambda>s. url s \<notin> failed_urls er) (enrich er (context_sources response))"
  using assms
  by (auto simp: tavily_search_def Let_def split: sum.splits if_splits)

lemma tavily_search_skipped:
  assumes "tavily_client_search P q = Inr response"
    and "urls_to_extract (context_sources response) = []"
  shows "tavily_search P q = Inr (context_sources response)"
  using assms by (simp add: tavily_search_def)

lemma search_web_Inr:
  "search_web P q = Inr rs \<Longrightarrow>
   \<exists>a b. tavily_search P q = Inr a \<and> serp_search P q = Inr b \<and> rs = a @ b"
  by (auto simp: search_web_def split: sum.splits)

lemma tavily_search_Inr:
  "tavily_search P q = Inr a \<Longrightarrow> \<exists>response. tavily_client_search P q = Inr response"
  by (auto simp: tavily_search_def split: sum.splits)

lemma serp_search_Inr:
  "serp_search P q = Inr b \<Longrightarrow> \<exists>res. serp_get_dict P q = Inr res \<and> b = serp_rows res"
  by (auto simp: serp_search_def split: sum.splits)

lemma two_providers_run:
  "search_web two_providers [113] =
    Inr [\<lparr>url = PStr [117, 49], title = PStr [97], content = Some (PStr [99])\<rparr>,
         \<lparr>url = PStr [117, 49], title = PStr [97], content = Some (PStr [115])\<rparr>]"
  by (simp add: search_web_def tavily_search_def serp_search_def serp_rows_def two_providers_def
      context_sources_def urls_to_extract_def enrich_def attach_def failed_urls_def
      dict_get_def or_empty_def truthy_def)

text \<open>
  Claim C1. When \<open>search_web\<close> returns, its result is Provider A's contribution followed
  by all the rows of Provider B, which are not compared with A's. When the extraction
  step runs, A's contribution is the enriched list of A's results without every entry
  whose url is in the failed list: none of its entries has a failed url, and its urls
  and titles are those of A's results with the failed ones removed, in the original
  order. When A returns no url to extract, A's results are kept as they are.
\<close>

theorem search_web_merge:
  assumes "search_web P q = Inr rs"
  shows "\<exists>response res a.
      tavily_client_search P q = Inr response \<and> serp_get_dict P q = Inr res
    \<and> tavily_search P q = Inr a
    \<and> rs = a @ serp_rows res
    \<and> (urls_to_extract (context_sources response) = [] \<longrightarrow> a = context_sources response)
    \<and> (urls_to_extract (context_sources response) \<noteq> [] \<longrightarrow>
        (\<exists>er. tavily_client_extract P (urls_to_extract (context_sources response)) = Inr er
          \<and> (\<forall>s \<in> set a. url s \<notin> failed_urls er)
          \<and> a = filter (\<lambda>s. url s \<notin> failed_urls er) (enrich er (context_sources response))
          \<and> map (\<lambda>s. (url s, title s)) a
              = filter (\<lambda>(u, t). u \<notin> failed_urls er)
                  (map (\<lambda>s. (url s, title s)) (context_sources response))))"
proof -
  from search_web_Inr [OF assms] obtain a b where
    ab: "tavily_search P q = Inr a" "serp_search P q = Inr b" "rs = a @ b" by blast
  from tavily_search_Inr [OF ab(1)] obtain response where
    resp: "tavily_client_search P q = Inr response" by blast
  from serp_search_Inr [OF ab(2)] obtain res where
    res: "serp_get_dict P q = Inr res" "b = serp_rows res" by blast
  have skipped: "urls_to_extract (context_sources response) = [] \<longrightarrow> a = context_sources response"
    using tavily_search_skipped [OF resp] ab(1) by auto
  have extracted: "urls_to_extract (context_sources response) \<noteq> [] \<longrightarrow>
        (\<exists>er. tavily_client_extract P (urls_to_extract (context_sources response)) = Inr er
          \<and> (\<forall>s \<in> set a. url s \<notin> failed_urls er)
          \<and> a = filter (\<lambda>s. url s \<notin> failed_urls er) (enrich er (context_sources response))
          \<and> map (\<lambda>s. (url s, title s)) a
              = filter (\<lambda>(u, t). u \<notin> failed_urls er)
                  (map (\<lambda>s. (url s, title s)) (context_sources response)))"
  proof
    assume ne: "urls_to_extract (context_sources response) \<noteq> []"
    from tavily_search_extracted [OF resp ne ab(1)] obtain er where
      er: "tavily_client_extract P (urls_to_extract (context_sources response)) = Inr er"
          "a = filter (\<lambda>s. url s \<notin> failed_urls er) (enrich er (context_sources response))"
      by blast
    have "\<forall>s \<in> set a. url s \<notin> failed_urls er"
      using er(2) by simp
    moreover have "map (\<lambda>s. (url s, title s)) a
              = filter (\<lambda>(u, t). u \<notin> failed_urls er)
                  (map (\<lambda>s. (url s, title s)) (context_sources response))"
      unfolding er(2) by (simp only: filter_keys enrich_keys)
    ultimately show "\<exists>er. tavily_client_extract P (urls_to_extract (context_sources response)) = Inr er
          \<and> (\<forall>s \<in> set a. url s \<notin> failed_urls er)
          \<and> a = filter (\<lambda>s. url s \<notin> failed_urls er) (enrich er (context_sources response))
          \<and> map (\<lambda>s. (url s, title s)) a
              = filter (\<lambda>(u, t). u \<notin> failed_urls er)
                  (map (\<lambda>s. (url s, title s)) (context_sources response))"
      using er by blast
  qed
  from resp res ab skipped extracted show ?thesis by blast
qed

theorem search_web_merge_witness:
  "search_web two_providers [113] =
    Inr [\<lparr>url = PStr [117, 49], title = PStr [97], content = Some (PStr [99])\<rparr>,
         \<lparr>url = PStr [117, 49], title = PStr [97], content = Some (PStr [115])\<rparr>]
   \<and> (\<exists>response res a.
      tavily_client_search two_providers [113] = Inr response
    \<and> serp_get_dict two_providers [113] = Inr res
    \<and> tavily_search two_providers [113] = Inr a
    \<and> [\<lparr>url = PStr [117, 49], title = PStr [97], content = Some (PStr [99])\<rparr>,
        \<lparr>url = PStr [117, 49], title = PStr [97], content = Some (PStr [115])\<rparr>]
        = a @ serp_rows res
    \<and> (urls_to_extract (context_sources response) = [] \<longrightarrow> a = context_sources response)
    \<and> (urls_to_extract (context_sources response) \<noteq> [] \<longrightarrow>
        (\<exists>er. tavily_client_extract two_providers (urls_to_extract (context_sources response))
                = Inr er
          \<and> (\<forall>s \<in> set a. url s \<notin> failed_urls er)
          \<and> a = filter (\<lambda>s. url s \<notin> failed_urls er) (enrich er (context_sources response))
          \<and> map (\<lambda>s. (url s, title s)) a
              = filter (\<lambda>(u, t). u \<notin> failed_urls er)
                  (map (\<lambda>s. (url s, title s)) (context_sources response)))))"
  by (rule conjI [OF two_providers_run search_web_merge [OF two_providers_run]])




section \<open>Properties of the report pipeline\<close>

lemma calls_of_append: "calls_of (tr @ tr') = calls_of tr @ calls_of tr'"
  by (induction tr rule: calls_of.induct) simp_all

lemma fragments_None: "ev_content ev = None \<Longrightarrow> fragments ev = []"
  by (simp add: fragments_def)

lemma fragments_no_parts: "ev_content ev = Some c \<Longrightarrow> parts c = None \<Longrightarrow> fragments ev = []"
  by (simp add: fragments_def or_empty_def)

lemma fragments_parts:
  "ev_content ev = Some c \<Longrightarrow> parts c = Some ps \<Longrightarrow> fragments ev = map part_text ps"
  by (simp add: fragments_def or_empty_def)

lemmas fragments_simps = fragments_None fragments_no_parts fragments_parts

lemma refine_loop_first:
  "refine_loop evs en = Inr (Some t) \<Longrightarrow>
   \<exists>ev. find (\<lambda>e. is_final_response e \<and> fragments e \<noteq> []) evs = Some ev \<and> t = hd (fragments ev)"
proof (induction evs)
  case Nil
  then show ?case by (cases en) simp_all
next
  case (Cons ev evs)
  show ?case
  proof (cases "is_final_response ev \<and> fragments ev \<noteq> []")
    case True
    then obtain c p ps where c: "ev_content ev = Some c" "parts c = Some (p # ps)"
      by (cases "ev_content ev"; cases "parts (the (ev_content ev))"; cases "the (parts (the (ev_content ev)))")
         (auto simp: fragments_simps)
    with True Cons.prems have "t = part_text p" by simp
    with True c show ?thesis by (simp add: fragments_simps)
  next
    case False
    with Cons.prems have "refine_loop evs en = Inr (Some t)"
      by (auto simp: fragments_simps split: if_splits option.splits list.splits)
    from Cons.IH [OF this] False show ?thesis by auto
  qed
qed

lemma planner_loop_first:
  "planner_loop evs en = Inr (Some t) \<Longrightarrow>
   \<exists>ev. find (\<lambda>e. is_final_response e \<and> ev_content e \<noteq> None) evs = Some ev
       \<and> fragments ev \<noteq> [] \<and> t = hd (fragments ev)"
proof (induction evs)
  case Nil
  then show ?case by (cases en) simp_all
next
  case (Cons ev evs)
  show ?case
  proof (cases "is_final_response ev \<and> ev_content ev \<noteq> None")
    case True
    then obtain c where c: "ev_content ev = Some c" by auto
    with True Cons.prems obtain p ps where p: "parts c = Some (p # ps)" "t = part_text p"
      by (auto split: option.splits list.splits)
    with True c show ?thesis by (simp add: fragments_simps)
  next
    case False
    with Cons.prems have "planner_loop evs en = Inr (Some t)" by auto
    from Cons.IH [OF this] False show ?thesis by auto
  qed
qed

lemma collect_loop_all:
  "collect_loop evs en acc = Inr fs \<Longrightarrow>
   en = Done \<and> fs = acc @ concat (map fragments
      (filter (\<lambda>e. is_final_response e \<and> ev_content e \<noteq> None) evs))"
proof (induction evs arbitrary: acc)
  case Nil
  then show ?case by (cases en) simp_all
next
  case (Cons ev evs)
  show ?case
  proof (cases "is_final_response ev \<and> ev_content ev \<noteq> None")
    case True
    then obtain c where c: "ev_content ev = Some c" by auto
    with True Cons.prems obtain ps where p: "parts c = Some ps"
      "collect_loop evs en (acc @ map part_text ps) = Inr fs"
      by (auto split: option.splits)
    from Cons.IH [OF p(2)] True c p(1) show ?thesis by (simp add: fragments_simps)
  next
    case False
    with Cons.prems have "collect_loop evs en acc = Inr fs" by auto
    from Cons.IH [OF this] False show ?thesis by auto
  qed
qed

lemma py_join_nl_Inr: "py_join_nl fs = Inr t \<Longrightarrow> \<exists>ts. fs = map Some ts \<and> t = join_nl ts"
proof -
  assume a: "py_join_nl fs = Inr t"
  then have nn: "None \<notin> set fs" and t: "t = join_nl (map the fs)"
    by (auto simp: py_join_nl_def split: if_splits)
  from nn have "fs = map Some (map the fs)"
    by (induction fs) auto
  with t show ?thesis by blast
qed

lemma pipeline_stages:
  assumes run: "create_report_pipline svc uid qry ans tr0 = (Inr rep, tr)"
    and c1: "c1 = \<lparr>runner = Refine, user_id = uid, session_id = py ''tg_'' @ uid,
                   new_message = Some (combined_query qry ans)\<rparr>"
  shows "\<exists>r1 r2 f3 t3 f4 c2 c3 c4.
      c2 = \<lparr>runner = Planner, user_id = uid, session_id = py ''tg_'' @ uid, new_message = r1\<rparr>
    \<and> c3 = \<lparr>runner = Search, user_id = uid, session_id = py ''tg_'' @ uid, new_message = r2\<rparr>
    \<and> c4 = \<lparr>runner = Writer, user_id = uid, session_id = py ''tg_'' @ uid, new_message = Some t3\<rparr>
    \<and> tr = tr0 @ [RunAsync c1, RunAsync c2, RunAsync c3, RunAsync c4]
    \<and> refine_loop (fst (svc (calls_of tr0) c1)) (snd (svc (calls_of tr0) c1)) = Inr (Some r1)
    \<and> planner_loop (fst (svc (calls_of tr0 @ [c1]) c2)) (snd (svc (calls_of tr0 @ [c1]) c2))
        = Inr (Some r2)
    \<and> collect_loop (fst (svc (calls_of tr0 @ [c1, c2]) c3))
        (snd (svc (calls_of tr0 @ [c1, c2]) c3)) [] = Inr f3
    \<and> py_join_nl f3 = Inr t3
    \<and> collect_loop (fst (svc (calls_of tr0 @ [c1, c2, c3]) c4))
        (snd (svc (calls_of tr0 @ [c1, c2, c3]) c4)) [] = Inr f4
    \<and> py_join_nl f4 = Inr rep"
  using run unfolding c1
  by (auto simp: create_report_pipline_def Let_def calls_of_append
      split: sum.splits option.splits)

text \<open>
  Claim C4, as the code has it. When the pipeline returns a report, it has made exactly
  four runner calls, in the order refine, planner, search, writer, each with the same
  user id and the session id \<open>tg_\<close> followed by the user id. The input of the refine
  call is \<open>User query: \<close>, the query, an empty line and the pairs \<open>question->answer\<close>,
  one per line in the order of the dictionary. The input of each later call is the
  result of the stage before it, and the report is the result of the writer stage. The
  result of the refine stage is the first fragment of the first final event that has a
  fragment; the result of the planner stage is the first fragment of the first final
  event that has a content; the result of the search stage and of the writer stage is
  the fragments of all final events with a content, in order, joined by newlines.
\<close>

theorem pipeline_chain:
  assumes "create_report_pipline svc uid qry ans tr0 = (Inr rep, tr)"
  shows "\<exists>c1 c2 c3 c4.
      tr = tr0 @ [RunAsync c1, RunAsync c2, RunAsync c3, RunAsync c4]
    \<and> map runner [c1, c2, c3, c4] = [Refine, Planner, Search, Writer]
    \<and> map user_id [c1, c2, c3, c4] = [uid, uid, uid, uid]
    \<and> map session_id [c1, c2, c3, c4]
        = [py ''tg_'' @ uid, py ''tg_'' @ uid, py ''tg_'' @ uid, py ''tg_'' @ uid]
    \<and> new_message c1
        = Some (py ''User query: '' @ qry @ [10, 10]
                @ join_nl (map (\<lambda>(q, a). q @ py ''->'' @ a) ans))
    \<and> (\<exists>ev. find (\<lambda>e. is_final_response e \<and> fragments e \<noteq> [])
                (fst (svc (calls_of tr0) c1)) = Some ev
             \<and> new_message c2 = hd (fragments ev))
    \<and> (\<exists>ev. find (\<lambda>e. is_final_response e \<and> ev_content e \<noteq> None)
                (fst (svc (calls_of tr0 @ [c1]) c2)) = Some ev
             \<and> fragments ev \<noteq> [] \<and> new_message c3 = hd (fragments ev))
    \<and> (\<exists>ts. concat (map fragments (filter (\<lambda>e. is_final_response e \<and> ev_content e \<noteq> None)
                (fst (svc (calls_of tr0 @ [c1, c2]) c3)))) = map Some ts
             \<and> new_message c4 = Some (join_nl ts))
    \<and> (\<exists>ts. concat (map fragments (filter (\<lambda>e. is_final_response e \<and> ev_content e \<noteq> None)
                (fst (svc (calls_of tr0 @ [c1, c2, c3]) c4)))) = map Some ts
             \<and> rep = join_nl ts)"
proof -
  define c1 where "c1 = \<lparr>runner = Refine, user_id = uid, session_id = py ''tg_'' @ uid,
                   new_message = Some (combined_query qry ans)\<rparr>"
  from pipeline_stages [OF assms c1_def] obtain r1 r2 f3 t3 f4 c2 c3 c4 where
    c2: "c2 = \<lparr>runner = Planner, user_id = uid, session_id = py ''tg_'' @ uid, new_message = r1\<rparr>"
    and c3: "c3 = \<lparr>runner = Search, user_id = uid, session_id = py ''tg_'' @ uid, new_message = r2\<rparr>"
    and c4: "c4 = \<lparr>runner = Writer, user_id = uid, session_id = py ''tg_'' @ uid, new_message = Some t3\<rparr>"
    and tr: "tr = tr0 @ [RunAsync c1, RunAsync c2, RunAsync c3, RunAsync c4]"
    and s1: "refine_loop (fst (svc (calls_of tr0) c1)) (snd (svc (calls_of tr0) c1)) = Inr (Some r1)"
    and s2: "planner_loop (fst (svc (calls_of tr0 @ [c1]) c2)) (snd (svc (calls_of tr0 @ [c1]) c2))
        = Inr (Some r2)"
    and s3: "collect_loop (fst (svc (calls_of tr0 @ [c1, c2]) c3))
        (snd (svc (calls_of tr0 @ [c1, c2]) c3)) [] = Inr f3"
    and j3: "py_join_nl f3 = Inr t3"
    and s4: "collect_loop (fst (svc (calls_of tr0 @ [c1, c2, c3]) c4))
        (snd (svc (calls_of tr0 @ [c1, c2, c3]) c4)) [] = Inr f4"
    and j4: "py_join_nl f4 = Inr rep"
    by blast
  have keys: "map runner [c1, c2, c3, c4] = [Refine, Planner, Search, Writer]"
    "map user_id [c1, c2, c3, c4] = [uid, uid, uid, uid]"
    "map session_id [c1, c2, c3, c4]
        = [py ''tg_'' @ uid, py ''tg_'' @ uid, py ''tg_'' @ uid, py ''tg_'' @ uid]"
    by (simp_all add: c1_def c2 c3 c4)
  have m1: "new_message c1 = Some (py ''User query: '' @ qry @ [10, 10]
                @ join_nl (map (\<lambda>(q, a). q @ py ''->'' @ a) ans))"
    by (simp add: c1_def combined_query_def)
  from refine_loop_first [OF s1] have m2:
    "\<exists>ev. find (\<lambda>e. is_final_response e \<and> fragments e \<noteq> [])
                (fst (svc (calls_of tr0) c1)) = Some ev
             \<and> new_message c2 = hd (fragments ev)"
    by (simp add: c2)
  from planner_loop_first [OF s2] have m3:
    "\<exists>ev. find (\<lambda>e. is_final_response e \<and> ev_content e \<noteq> None)
                (fst (svc (calls_of tr0 @ [c1]) c2)) = Some ev
             \<and> fragments ev \<noteq> [] \<and> new_message c3 = hd (fragments ev)"
    by (simp add: c3)
  from py_join_nl_Inr [OF j3] obtain ts3 where ts3: "f3 = map Some ts3" "t3 = join_nl ts3"
    by blast
  from collect_loop_all [OF s3] ts3 have
    "concat (map fragments (filter (\<lambda>e. is_final_response e \<and> ev_content e \<noteq> None)
                (fst (svc (calls_of tr0 @ [c1, c2]) c3)))) = map Some ts3
             \<and> new_message c4 = Some (join_nl ts3)"
    by (simp add: c4)
  then have m4:
    "\<exists>ts. concat (map fragments (filter (\<lambda>e. is_final_response e \<and> ev_content e \<noteq> None)
                (fst (svc (calls_of tr0 @ [c1, c2]) c3)))) = map Some ts
             \<and> new_message c4 = Some (join_nl ts)"
    by blast
  from py_join_nl_Inr [OF j4] obtain ts4 where ts4: "f4 = map Some ts4" "rep = join_nl ts4"
    by blast
  from collect_loop_all [OF s4] ts4 have
    "concat (map fragments (filter (\<lambda>e. is_final_response e \<and> ev_content e \<noteq> None)
                (fst (svc (calls_of tr0 @ [c1, c2, c3]) c4)))) = map Some ts4
             \<and> rep = join_nl ts4"
    by simp
  then have m5:
    "\<exists>ts. concat (map fragments (filter (\<lambda>e. is_final_response e \<and> ev_content e \<noteq> None)
                (fst (svc (calls_of tr0 @ [c1, c2, c3]) c4)))) = map Some ts
             \<and> rep = join_nl ts"
    by blast
  show ?thesis
    by (rule exI [of _ c1], rule exI [of _ c2], rule exI [of _ c3], rule exI [of _ c4])
       (intro conjI tr keys m1 m2 m3 m4 m5)
qed

lemma two_fragments_run:
  "create_report_pipline two_fragments [49] [113] [] [] =
     (Inr [97, 10, 98],
      [RunAsync \<lparr>runner = Refine, user_id = [49], session_id = py ''tg_'' @ [49],
                 new_message = Some (py ''User query: '' @ [113, 10, 10])\<rparr>,
       RunAsync \<lparr>runner = Planner, user_id = [49], session_id = py ''tg_'' @ [49],
                 new_message = Some [97]\<rparr>,
       RunAsync \<lparr>runner = Search, user_id = [49], session_id = py ''tg_'' @ [49],
                 new_message = Some [97]\<rparr>,
       RunAsync \<lparr>runner = Writer, user_id = [49], session_id = py ''tg_'' @ [49],
                 new_message = Some [97, 10, 98]\<rparr>])"
  by (simp add: create_report_pipline_def two_fragments_def combined_query_def py_join_nl_def
      Let_def)

theorem pipeline_chain_witness:
  "create_report_pipline two_fragments [49] [113] [] [] =
     (Inr [97, 10, 98],
      [RunAsync \<lparr>runner = Refine, user_id = [49], session_id = py ''tg_'' @ [49],
                 new_message = Some (py ''User query: '' @ [113, 10, 10])\<rparr>,
       RunAsync \<lparr>runner = Planner, user_id = [49], session_id = py ''tg_'' @ [49],
                 new_message = Some [97]\<rparr>,
       RunAsync \<lparr>runner = Search, user_id = [49], session_id = py ''tg_'' @ [49],
                 new_message = Some [97]\<rparr>,
       RunAsync \<lparr>runner = Writer, user_id = [49], session_id = py ''tg_'' @ [49],
                 new_message = Some [97, 10, 98]\<rparr>])
   \<and> (\<exists>c1 c2 c3 c4.
      [RunAsync \<lparr>runner = Refine, user_id = [49], session_id = py ''tg_'' @ [49],
                 new_message = Some (py ''User query: '' @ [113, 10, 10])\<rparr>,
       RunAsync \<lparr>runner = Planner, user_id = [49], session_id = py ''tg_'' @ [49],
                 new_message = Some [97]\<rparr>,
       RunAsync \<lparr>runner = Search, user_id = [49], session_id = py ''tg_'' @ [49],
                 new_message = Some [97]\<rparr>,
       RunAsync \<lparr>runner = Writer, user_id = [49], session_id = py ''tg_'' @ [49],
                 new_message = Some [97, 10, 98]\<rparr>]
        = [] @ [RunAsync c1, RunAsync c2, RunAsync c3, RunAsync c4]
    \<and> map runner [c1, c2, c3, c4] = [Refine, Planner, Search, Writer]
    \<and> map user_id [c1, c2, c3, c4] = [[49], [49], [49], [49]]
    \<and> map session_id [c1, c2, c3, c4]
        = [py ''tg_'' @ [49], py ''tg_'' @ [49], py ''tg_'' @ [49], py ''tg_'' @ [49]]
    \<and> new_message c1
        = Some (py ''User query: '' @ [113] @ [10, 10]
                @ join_nl (map (\<lambda>(q, a). q @ py ''->'' @ a) []))
    \<and> (\<exists>ev. find (\<lambda>e. is_final_response e \<and> fragments e \<noteq> [])
                (fst (two_fragments (calls_of []) c1)) = Some ev
             \<and> new_message c2 = hd (fragments ev))
    \<and> (\<exists>ev. find (\<lambda>e. is_final_response e \<and> ev_content e \<noteq> None)
                (fst (two_fragments (calls_of [] @ [c1]) c2)) = Some ev
             \<and> fragments ev \<noteq> [] \<and> new_message c3 = hd (fragments ev))
    \<and> (\<exists>ts. concat (map fragments (filter (\<lambda>e. is_final_response e \<and> ev_content e \<noteq> None)
                (fst (two_fragments (calls_of [] @ [c1, c2]) c3)))) = map Some ts
             \<and> new_message c4 = Some (join_nl ts))
    \<and> (\<exists>ts. concat (map fragments (filter (\<lambda>e. is_final_response e \<and> ev_content e \<noteq> None)
                (fst (two_fragments (calls_of [] @ [c1, c2, c3]) c4)))) = map Some ts
             \<and> [97, 10, 98] = join_nl ts))"
  by (rule conjI [OF two_fragments_run pipeline_chain [OF two_fragments_run]])

text \<open>
  Claim C4 fails as stated: with two fragments \<open>a\<close> and \<open>b\<close> in each final event, the
  refine and planner stages pass on \<open>a\<close> alone and the search and writer stages give
  \<open>a\<close>, a newline, \<open>b\<close>; none of them is the concatenation \<open>ab\<close> of the fragments.
\<close>

theorem pipeline_fragments_counterexample:
  "fragments \<lparr>is_final_response = True,
       ev_content = Some (Content (Some [Part (Some [97]), Part (Some [98])]))\<rparr>
     = [Some [97], Some [98]]
   \<and> two_fragments [] \<lparr>runner = Refine, user_id = [49], session_id = py ''tg_'' @ [49],
                 new_message = Some (py ''User query: '' @ [113, 10, 10])\<rparr>
     = ([\<lparr>is_final_response = True,
          ev_content = Some (Content (Some [Part (Some [97]), Part (Some [98])]))\<rparr>], Done)
   \<and> create_report_pipline two_fragments [49] [113] [] [] =
     (Inr [97, 10, 98],
      [RunAsync \<lparr>runner = Refine, user_id = [49], session_id = py ''tg_'' @ [49],
                 new_message = Some (py ''User query: '' @ [113, 10, 10])\<rparr>,
       RunAsync \<lparr>runner = Planner, user_id = [49], session_id = py ''tg_'' @ [49],
                 new_message = Some [97]\<rparr>,
       RunAsync \<lparr>runner = Search, user_id = [49], session_id = py ''tg_'' @ [49],
                 new_message = Some [97]\<rparr>,
       RunAsync \<lparr>runner = Writer, user_id = [49], session_id = py ''tg_'' @ [49],
                 new_message = Some [97, 10, 98]\<rparr>])
   \<and> [97] \<noteq> concat [[97], [98 :: nat]]
   \<and> [97, 10, 98] \<noteq> concat [[97], [98 :: nat]]"
proof (intro conjI)
  show "fragments \<lparr>is_final_response = True,
       ev_content = Some (Content (Some [Part (Some [97]), Part (Some [98])]))\<rparr>
     = [Some [97], Some [98]]"
    by (simp add: fragments_def or_empty_def)
  show "two_fragments [] \<lparr>runner = Refine, user_id = [49], session_id = py ''tg_'' @ [49],
                 new_message = Some (py ''User query: '' @ [113, 10, 10])\<rparr>
     = ([\<lparr>is_final_response = True,
          ev_content = Some (Content (Some [Part (Some [97]), Part (Some [98])]))\<rparr>], Done)"
    by (simp add: two_fragments_def)
  show "create_report_pipline two_fragments [49] [113] [] [] =
     (Inr [97, 10, 98],
      [RunAsync \<lparr>runner = Refine, user_id = [49], session_id = py ''tg_'' @ [49],
                 new_message = Some (py ''User query: '' @ [113, 10, 10])\<rparr>,
       RunAsync \<lparr>runner = Planner, user_id = [49], session_id = py ''tg_'' @ [49],
                 new_message = Some [97]\<rparr>,
       RunAsync \<lparr>runner = Search, user_id = [49], session_id = py ''tg_'' @ [49],
                 new_message = Some [97]\<rparr>,
       RunAsync \<lparr>runner = Writer, user_id = [49], session_id = py ''tg_'' @ [49],
                 new_message = Some [97, 10, 98]\<rparr>])"
    by (rule two_fragments_run)
qed simp_all

section \<open>Properties of the conversation\<close>

lemma dropWhile_keeps: "\<not> P x \<Longrightarrow> x \<in> set (dropWhile P xs) \<longleftrightarrow> x \<in> set xs"
  by (induction xs) auto

lemma strip_keeps: "\<not> is_space x \<Longrightarrow> x \<in> set (strip s) \<longleftrightarrow> x \<in> set s"
  by (simp add: strip_def dropWhile_keeps)

lemma at_not_space: "\<not> is_space 64"
  by (simp add: is_space_def)

lemma rstrip_Cons: "\<not> P x \<Longrightarrow> rev (dropWhile P (rev (x # ys))) = x # rev (dropWhile P (rev ys))"
  by (simp add: dropWhile_append3)

lemma strip_idem: "strip (strip s) = strip s"
proof (cases "dropWhile is_space s")
  case Nil
  have "strip s = []" unfolding strip_def Nil by simp
  moreover have "strip [] = []" by (simp add: strip_def)
  ultimately show ?thesis by simp
next
  case (Cons x ys)
  then have nx: "\<not> is_space x"
    using hd_dropWhile [of is_space s] by auto
  have s1: "strip s = x # rev (dropWhile is_space (rev ys))"
    unfolding strip_def Cons using nx by (rule rstrip_Cons [of is_space x])
  have "strip (x # rev (dropWhile is_space (rev ys)))
      = rev (dropWhile is_space (rev (x # rev (dropWhile is_space (rev ys)))))"
    using nx by (simp add: strip_def)
  also have "\<dots> = x # rev (dropWhile is_space (rev (rev (dropWhile is_space (rev ys)))))"
    using nx by (rule rstrip_Cons [of is_space x])
  also have "\<dots> = x # rev (dropWhile is_space (rev ys))"
    by simp
  finally show ?thesis by (simp add: s1)
qed

lemma email_loop_result:
  "email_loop evs en =
     (if \<exists>ev \<in> set evs. is_final_response ev then Inr ()
      else case en of Done \<Rightarrow> Inr () | Raise e \<Rightarrow> Inl e)"
proof (induction evs)
  case Nil
  then show ?case by (cases en) simp_all
next
  case (Cons ev evs)
  then show ?case by simp
qed

lemma handle_text_email_addr:
  "stage d = Some EMAIL_ADDR \<Longrightarrow>
   handle_text svc uid t d tr = handle_email_addr svc uid (strip t) d tr"
  by (simp add: handle_text_def dict_get_def)

text \<open>
  Claim C9, as the code has it. In the stage \<open>EMAIL_ADDR\<close>: a message without the
  character \<open>@\<close> is answered by the rejection message, no runner is called (so the
  Mailer is not invoked) and the session is unchanged. A message with \<open>@\<close>, the report
  being stored, calls the email runner with the stored report and the stripped address;
  when the run has a final event, or ends normally without one, the confirmation is sent
  and the stage is set to \<open>WAITING_QUERY\<close>; when the run raises before any final event,
  the exception leaves the handler, no confirmation is sent and the session is
  unchanged, still in \<open>EMAIL_ADDR\<close>. With no report stored the lookup raises
  \<open>KeyError\<close> before any runner call.
\<close>

theorem email_address_turn:
  assumes "stage d = Some EMAIL_ADDR"
    and "c = \<lparr>runner = Email, user_id = uid, session_id = py ''tg_'' @ uid,
               new_message = Some (py ''Report to send:'' @ [10, 10] @ rep @ [10, 10]
                  @ py ''E-mail address: '' @ strip message_text)\<rparr>"
  shows "(64 \<notin> set message_text \<longrightarrow>
            handle_text svc uid message_text d tr = (None, d, tr @ [ReplyText msg_not_an_address]))
       \<and> (64 \<in> set message_text \<and> report d = Some rep \<and> svc (calls_of tr) c = (evs, en)
          \<and> ((\<exists>ev \<in> set evs. is_final_response ev) \<or> en = Done)
          \<longrightarrow> handle_text svc uid message_text d tr =
                (None, d\<lparr>stage := Some WAITING_QUERY\<rparr>,
                 tr @ [SendTyping, RunAsync c, ReplyText msg_sent]))
       \<and> (64 \<in> set message_text \<and> report d = Some rep \<and> svc (calls_of tr) c = (evs, Raise e)
          \<and> (\<forall>ev \<in> set evs. \<not> is_final_response ev)
          \<longrightarrow> handle_text svc uid message_text d tr = (Some e, d, tr @ [SendTyping, RunAsync c]))
       \<and> (64 \<in> set message_text \<and> report d = None
          \<longrightarrow> handle_text svc uid message_text d tr = (Some KeyError, d, tr @ [SendTyping]))"
proof (intro conjI impI)
  assume "64 \<notin> set message_text"
  then show "handle_text svc uid message_text d tr = (None, d, tr @ [ReplyText msg_not_an_address])"
    by (simp add: handle_text_email_addr [OF assms(1)] handle_email_addr_def strip_idem
        strip_keeps at_not_space)
next
  assume h: "64 \<in> set message_text \<and> report d = Some rep \<and> svc (calls_of tr) c = (evs, en)
          \<and> ((\<exists>ev \<in> set evs. is_final_response ev) \<or> en = Done)"
  then have "email_loop evs en = Inr ()"
    by (auto simp: email_loop_result)
  with h show "handle_text svc uid message_text d tr =
                (None, d\<lparr>stage := Some WAITING_QUERY\<rparr>,
                 tr @ [SendTyping, RunAsync c, ReplyText msg_sent])"
    unfolding assms(2)
    by (simp add: handle_text_email_addr [OF assms(1)] handle_email_addr_def strip_idem
        strip_keeps at_not_space Let_def email_prompt_def calls_of_append)
next
  assume h: "64 \<in> set message_text \<and> report d = Some rep \<and> svc (calls_of tr) c = (evs, Raise e)
          \<and> (\<forall>ev \<in> set evs. \<not> is_final_response ev)"
  then have "email_loop evs (Raise e) = Inl e"
    by (auto simp: email_loop_result)
  with h show "handle_text svc uid message_text d tr = (Some e, d, tr @ [SendTyping, RunAsync c])"
    unfolding assms(2)
    by (simp add: handle_text_email_addr [OF assms(1)] handle_email_addr_def strip_idem
        strip_keeps at_not_space Let_def email_prompt_def calls_of_append)
next
  assume "64 \<in> set message_text \<and> report d = None"
  then show "handle_text svc uid message_text d tr = (Some KeyError, d, tr @ [SendTyping])"
    by (simp add: handle_text_email_addr [OF assms(1)] handle_email_addr_def strip_idem
        strip_keeps at_not_space Let_def)
qed

lemma py_index_nat: "i < length xs \<Longrightarrow> py_index xs (int i) = Inr (xs ! i)"
  by (simp add: py_index_def)

lemma py_index_out: "0 \<le> i \<Longrightarrow> int (length xs) \<le> i \<Longrightarrow> py_index xs i = Inl IndexError"
  by (simp add: py_index_def)

lemma handle_text_asking:
  "stage d = Some ASKING \<Longrightarrow> handle_text svc uid t d tr = handle_asking svc uid (strip t) d tr"
  by (simp add: handle_text_def dict_get_def)

lemma handle_text_waiting:
  "stage d = None \<or> stage d = Some WAITING_QUERY \<Longrightarrow>
   handle_text svc uid t d tr = handle_waiting_query svc uid (strip t) d tr"
  by (auto simp: handle_text_def dict_get_def)

lemma asking_turn_early:
  assumes "stage d = Some ASKING" and "q_idx d = Some i" and "questions d = Some qs"
    and "answers d = Some ans" and "i < 2"
    and "py_index qs i = Inr cq" and "py_index qs (i + 1) = Inr nq"
  shows "handle_text svc uid t d tr =
     (None, d\<lparr>answers := Some (dict_set ans cq (strip t)), q_idx := Some (i + 1)\<rparr>,
      tr @ [ReplyText nq])"
  using assms by (simp add: handle_text_asking handle_asking_def)

lemma asking_turn_last_ok:
  assumes "stage d = Some ASKING" and "q_idx d = Some i" and "questions d = Some qs"
    and "answers d = Some ans" and "\<not> i < 2" and "query d = Some qry"
    and "py_index qs i = Inr cq"
    and "create_report_pipline svc uid qry (dict_set ans cq (strip t))
           (tr @ [ReplyText msg_working, SendTyping]) = (Inr rep, tr')"
  shows "handle_text svc uid t d tr =
     (None,
      d\<lparr>answers := Some (dict_set ans cq (strip t)), q_idx := Some (i + 1),
        report := Some rep, stage := Some EMAIL_DECISION\<rparr>,
      tr' @ map (\<lambda>chunk. ReplyMarkdownV2 (escape_markdown chunk)) (split_message rep 4096)
          @ [ReplyText msg_email_question])"
  using assms by (simp add: handle_text_asking handle_asking_def)

lemma asking_turn_last_fail:
  assumes "stage d = Some ASKING" and "q_idx d = Some i" and "questions d = Some qs"
    and "answers d = Some ans" and "\<not> i < 2" and "query d = Some qry"
    and "py_index qs i = Inr cq"
    and "create_report_pipline svc uid qry (dict_set ans cq (strip t))
           (tr @ [ReplyText msg_working, SendTyping]) = (Inl e, tr')"
  shows "handle_text svc uid t d tr =
     (Some e, d\<lparr>answers := Some (dict_set ans cq (strip t)), q_idx := Some (i + 1)\<rparr>, tr')"
  using assms by (simp add: handle_text_asking handle_asking_def)

text \<open>The pipeline only appends runner calls to the trace.\<close>

lemma run_async_suffix:
  "\<exists>cs. [RunAsync a] = map RunAsync cs"
  "\<exists>cs. [RunAsync a, RunAsync b] = map RunAsync cs"
  "\<exists>cs. [RunAsync a, RunAsync b, RunAsync c] = map RunAsync cs"
  "\<exists>cs. [RunAsync a, RunAsync b, RunAsync c, RunAsync d] = map RunAsync cs"
  by (rule exI [of _ "[a]"], simp, rule exI [of _ "[a, b]"], simp,
      rule exI [of _ "[a, b, c]"], simp, rule exI [of _ "[a, b, c, d]"], simp)

lemma pipeline_trace:
  "create_report_pipline svc uid qry ans tr0 = (res, tr') \<Longrightarrow> \<exists>cs. tr' = tr0 @ map RunAsync cs"
  by (auto simp: create_report_pipline_def Let_def run_async_suffix
      split: sum.splits option.splits)

lemma refine_fails_pipeline:
  "create_report_pipline refine_fails uid qry ans tr0 =
    (Inl (External 7),
     tr0 @ [RunAsync \<lparr>runner = Refine, user_id = uid, session_id = py ''tg_'' @ uid,
                      new_message = Some (combined_query qry ans)\<rparr>])"
  by (simp add: create_report_pipline_def refine_fails_def Let_def)

lemma demo_pipeline:
  "create_report_pipline demo_service uid qry ans tr0 =
    (Inr [112, 10, 120, 10, 121, 10, 122],
     tr0 @ [RunAsync \<lparr>runner = Refine, user_id = uid, session_id = py ''tg_'' @ uid,
                      new_message = Some (combined_query qry ans)\<rparr>,
            RunAsync \<lparr>runner = Planner, user_id = uid, session_id = py ''tg_'' @ uid,
                      new_message = Some [112, 10, 120, 10, 121, 10, 122]\<rparr>,
            RunAsync \<lparr>runner = Search, user_id = uid, session_id = py ''tg_'' @ uid,
                      new_message = Some [112, 10, 120, 10, 121, 10, 122]\<rparr>,
            RunAsync \<lparr>runner = Writer, user_id = uid, session_id = py ''tg_'' @ uid,
                      new_message = Some [112, 10, 120, 10, 121, 10, 122]\<rparr>])"
  by (simp add: create_report_pipline_def demo_service_def Let_def py_join_nl_def)

text \<open>
  Claim C7, as the code has it. When the pipeline run raises on the last answer, the
  exception leaves \<open>handle_text\<close>: the answer is recorded and the index advanced, the
  stage stays \<open>ASKING\<close>, the report is not stored, and the trace holds the notice that
  the report is being worked on, the typing action and runner calls only: no report
  chunk and no message about the failure is sent.
\<close>

theorem asking_pipeline_failure:
  assumes "stage d = Some ASKING" and "q_idx d = Some i" and "\<not> i < 2"
    and "questions d = Some qs" and "py_index qs i = Inr cq"
    and "answers d = Some ans" and "query d = Some qry"
    and "create_report_pipline svc uid qry (dict_set ans cq (strip t))
           (tr @ [ReplyText msg_working, SendTyping]) = (Inl e, tr')"
  shows "handle_text svc uid t d tr =
           (Some e, d\<lparr>answers := Some (dict_set ans cq (strip t)), q_idx := Some (i + 1)\<rparr>, tr')
       \<and> stage (d\<lparr>answers := Some (dict_set ans cq (strip t)), q_idx := Some (i + 1)\<rparr>)
           = Some ASKING
       \<and> report (d\<lparr>answers := Some (dict_set ans cq (strip t)), q_idx := Some (i + 1)\<rparr>)
           = report d
       \<and> (\<exists>cs. tr' = tr @ [ReplyText msg_working, SendTyping] @ map RunAsync cs)"
proof -
  from pipeline_trace [OF assms(8)] have "\<exists>cs. tr' = tr @ [ReplyText msg_working, SendTyping] @ map RunAsync cs"
    by simp
  with asking_turn_last_fail [OF assms(1,2,4,6,3,7,5,8)] assms(1) show ?thesis by simp
qed

lemma refine_fails_turn: "handle_text refine_fails [49] [99] asking2 [] =
   (Some (External 7),
    \<lparr>stage = Some ASKING, questions = Some [[120], [121], [122]], query = Some [113],
     answers = Some [([120], [97]), ([121], [98]), ([122], [99])], q_idx = Some 3, report = None\<rparr>,
    [ReplyText msg_working, SendTyping,
     RunAsync \<lparr>runner = Refine, user_id = [49], session_id = py ''tg_'' @ [49],
                      new_message = Some (combined_query [113] [([120], [97]), ([121], [98]), ([122], [99])])\<rparr>])"
proof -
  have s: "strip [99] = [99]" by (simp add: strip_def is_space_def)
  have "handle_text refine_fails [49] [99] asking2 [] =
     (Some (External 7), asking2\<lparr>answers := Some (dict_set [([120], [97]), ([121], [98])] [122] (strip [99])), q_idx := Some (2 + 1)\<rparr>,
      [] @ [ReplyText msg_working, SendTyping] @ [RunAsync \<lparr>runner = Refine, user_id = [49], session_id = py ''tg_'' @ [49],
                      new_message = Some (combined_query [113] (dict_set [([120], [97]), ([121], [98])] [122] (strip [99])))\<rparr>])"
    by (rule asking_turn_last_fail [where qs = "[[120], [121], [122]]" and qry = "[113]"])
       (simp_all add: asking2_def py_index_def refine_fails_pipeline)
  then show ?thesis by (simp add: s asking2_def)
qed

lemma handle_waiting_query_inv:
  "handle_waiting_query svc uid t d tr = (r, d', tr') \<Longrightarrow> stage d' = stage d \<and> report d' = report d \<or> stage d' = Some ASKING"
  by (auto simp: handle_waiting_query_def Let_def split: sum.splits)

lemma handle_asking_inv:
  "handle_asking svc uid t d tr = (r, d', tr') \<Longrightarrow>
   stage d' = stage d \<and> report d' = report d \<or> report d' \<noteq> None"
  by (auto simp: handle_asking_def Let_def split: sum.splits option.splits if_splits prod.splits)

lemma handle_email_decision_inv:
  "handle_email_decision t d tr = (r, d', tr') \<Longrightarrow>
   report d' = report d \<and> (stage d' = Some EMAIL_ADDR \<or> stage d' = Some WAITING_QUERY)"
  by (auto simp: handle_email_decision_def split: if_splits)

lemma handle_email_addr_inv:
  "handle_email_addr svc uid t d tr = (r, d', tr') \<Longrightarrow>
   report d' = report d \<and> (stage d' = stage d \<or> stage d' = Some WAITING_QUERY)"
  by (auto simp: handle_email_addr_def Let_def split: if_splits option.splits sum.splits)

lemma handle_text_inv:
  assumes "report_invariant d" and "handle_text svc uid t d tr = (r, d', tr')"
  shows "report_invariant d'"
proof (cases "dict_get (stage d) WAITING_QUERY")
  case WAITING_QUERY
  with assms(2) have "handle_waiting_query svc uid (strip t) d tr = (r, d', tr')"
    by (simp add: handle_text_def)
  from handle_waiting_query_inv [OF this] assms(1) show ?thesis
    by (auto simp: report_invariant_def)
next
  case ASKING
  with assms(2) have "handle_asking svc uid (strip t) d tr = (r, d', tr')"
    by (simp add: handle_text_def)
  from handle_asking_inv [OF this] assms(1) show ?thesis
    by (auto simp: report_invariant_def)
next
  case EMAIL_DECISION
  then have st: "stage d = Some EMAIL_DECISION"
    by (auto simp: dict_get_def split: option.splits)
  from EMAIL_DECISION assms(2) have "handle_email_decision (strip t) d tr = (r, d', tr')"
    by (simp add: handle_text_def)
  from handle_email_decision_inv [OF this] assms(1) st show ?thesis
    by (auto simp: report_invariant_def)
next
  case EMAIL_ADDR
  then have st: "stage d = Some EMAIL_ADDR"
    by (auto simp: dict_get_def split: option.splits)
  from EMAIL_ADDR assms(2) have "handle_email_addr svc uid (strip t) d tr = (r, d', tr')"
    by (simp add: handle_text_def)
  from handle_email_addr_inv [OF this] assms(1) st show ?thesis
    by (auto simp: report_invariant_def)
qed

lemma dispatch_inv:
  "report_invariant (fst s) \<Longrightarrow> report_invariant (fst (dispatch svc uid s u))"
proof (cases s; cases u)
  fix d tr t
  assume inv: "report_invariant (fst s)" and s: "s = (d, tr)" and u: "u = TextMessage t"
  obtain r d' tr' where h: "handle_text svc uid t d tr = (r, d', tr')"
    by (cases "handle_text svc uid t d tr")
  from handle_text_inv [OF _ h] inv s have "report_invariant d'" by simp
  with s u h show "report_invariant (fst (dispatch svc uid s u))" by simp
qed (simp_all add: start_def cancel_def cleared_def report_invariant_def)

lemma foldl_dispatch_inv:
  "report_invariant (fst s) \<Longrightarrow> report_invariant (fst (foldl (dispatch svc uid) s us))"
  by (induction us arbitrary: s) (simp_all add: dispatch_inv)

lemma handle_waiting_query_report:
  "handle_waiting_query svc uid t d tr = (r, d', tr') \<Longrightarrow> report d' = report d"
  by (auto simp: handle_waiting_query_def Let_def split: sum.splits)

lemma handle_text_report_same:
  assumes "dict_get (stage d) WAITING_QUERY \<noteq> ASKING"
  shows "report (fst (snd (handle_text svc uid t d tr))) = report d"
proof (cases "dict_get (stage d) WAITING_QUERY")
  case WAITING_QUERY
  obtain r d' tr' where h: "handle_waiting_query svc uid (strip t) d tr = (r, d', tr')"
    by (cases "handle_waiting_query svc uid (strip t) d tr")
  from handle_waiting_query_report [OF h] WAITING_QUERY h show ?thesis
    by (simp add: handle_text_def)
next
  case ASKING
  with assms show ?thesis by simp
next
  case EMAIL_DECISION
  obtain r d' tr' where h: "handle_email_decision (strip t) d tr = (r, d', tr')"
    by (cases "handle_email_decision (strip t) d tr")
  from handle_email_decision_inv [OF h] EMAIL_DECISION h show ?thesis
    by (simp add: handle_text_def)
next
  case EMAIL_ADDR
  obtain r d' tr' where h: "handle_email_addr svc uid (strip t) d tr = (r, d', tr')"
    by (cases "handle_email_addr svc uid (strip t) d tr")
  from handle_email_addr_inv [OF h] EMAIL_ADDR h show ?thesis
    by (simp add: handle_text_def)
qed

lemma handle_text_report_kept:
  assumes "report d \<noteq> None"
  shows "report (fst (snd (handle_text svc uid t d tr))) \<noteq> None"
proof (cases "dict_get (stage d) WAITING_QUERY = ASKING")
  case True
  obtain r d' tr' where h: "handle_asking svc uid (strip t) d tr = (r, d', tr')"
    by (cases "handle_asking svc uid (strip t) d tr")
  from handle_asking_inv [OF h] assms have "report d' \<noteq> None" by auto
  with True h show ?thesis by (simp add: handle_text_def)
next
  case False
  from handle_text_report_same [OF False] assms show ?thesis by simp
qed

lemma foldl_text_report_kept:
  "report (fst s) \<noteq> None \<Longrightarrow>
   report (fst (foldl (dispatch svc uid) s (map TextMessage ts))) \<noteq> None"
proof (induction ts arbitrary: s)
  case Nil
  then show ?case by simp
next
  case (Cons t ts)
  obtain d tr where s: "s = (d, tr)" by (cases s)
  from Cons.prems s have "report (fst (dispatch svc uid s (TextMessage t))) \<noteq> None"
    by (simp add: handle_text_report_kept)
  from Cons.IH [OF this] show ?case by simp
qed

lemma run_updates_append:
  "run_updates svc uid (us @ vs) = foldl (dispatch svc uid) (run_updates svc uid us) vs"
  by (simp add: run_updates_def)

lemma command_clears:
  "report (fst (dispatch svc uid s StartCommand)) = None"
  "report (fst (dispatch svc uid s CancelCommand)) = None"
  by (cases s; simp add: start_def cancel_def cleared_def)+

text \<open>
  Claim C6, as the code has it. After every sequence of updates, if the stage is
  \<open>EMAIL_DECISION\<close> or \<open>EMAIL_ADDR\<close> then the report is defined. The converse does not
  hold: a text handled in a stage other than \<open>ASKING\<close> leaves the report as it is, also
  when the stage goes back to \<open>WAITING_QUERY\<close>; a text handled in any stage leaves a
  defined report defined; so after any sequence of updates a defined report stays
  defined through any further texts, and only the commands \<open>/start\<close> and \<open>/cancel\<close>
  make it undefined.
\<close>

theorem report_defined_in_email_stages:
  "(stage (fst (run_updates svc uid us)) = Some EMAIL_DECISION
      \<or> stage (fst (run_updates svc uid us)) = Some EMAIL_ADDR
    \<longrightarrow> report (fst (run_updates svc uid us)) \<noteq> None)
   \<and> (stage d = Some EMAIL_DECISION \<or> stage d = Some EMAIL_ADDR
       \<longrightarrow> report (fst (snd (handle_text svc uid t d tr))) = report d)
   \<and> (dict_get (stage d) WAITING_QUERY \<noteq> ASKING
       \<longrightarrow> report (fst (snd (handle_text svc uid t d tr))) = report d)
   \<and> (report d \<noteq> None \<longrightarrow> report (fst (snd (handle_text svc uid t d tr))) \<noteq> None)
   \<and> (report (fst (run_updates svc uid us)) \<noteq> None
       \<longrightarrow> report (fst (run_updates svc uid (us @ map TextMessage ts))) \<noteq> None)
   \<and> report (fst (run_updates svc uid (us @ [StartCommand]))) = None
   \<and> report (fst (run_updates svc uid (us @ [CancelCommand]))) = None"
proof (intro conjI)
  have "report_invariant (fst (cleared, []))"
    by (simp add: report_invariant_def cleared_def)
  from foldl_dispatch_inv [OF this]
  have "report_invariant (fst (run_updates svc uid us))"
    by (simp add: run_updates_def)
  then show "stage (fst (run_updates svc uid us)) = Some EMAIL_DECISION
      \<or> stage (fst (run_updates svc uid us)) = Some EMAIL_ADDR
    \<longrightarrow> report (fst (run_updates svc uid us)) \<noteq> None"
    by (simp add: report_invariant_def)
next
  show "stage d = Some EMAIL_DECISION \<or> stage d = Some EMAIL_ADDR
       \<longrightarrow> report (fst (snd (handle_text svc uid t d tr))) = report d"
    by (auto simp: handle_text_def dict_get_def handle_email_decision_def handle_email_addr_def
        Let_def split: option.splits sum.splits)
next
  show "dict_get (stage d) WAITING_QUERY \<noteq> ASKING
       \<longrightarrow> report (fst (snd (handle_text svc uid t d tr))) = report d"
    using handle_text_report_same by blast
next
  show "report d \<noteq> None \<longrightarrow> report (fst (snd (handle_text svc uid t d tr))) \<noteq> None"
    using handle_text_report_kept by blast
next
  show "report (fst (run_updates svc uid us)) \<noteq> None
       \<longrightarrow> report (fst (run_updates svc uid (us @ map TextMessage ts))) \<noteq> None"
    unfolding run_updates_append using foldl_text_report_kept by blast
next
  show "report (fst (run_updates svc uid (us @ [StartCommand]))) = None"
    unfolding run_updates_append by (simp add: command_clears)
next
  show "report (fst (run_updates svc uid (us @ [CancelCommand]))) = None"
    unfolding run_updates_append by (simp add: command_clears)
qed

lemma clarify_loop_last:
  "clarify_loop evs en acc = Inr qs \<Longrightarrow>
   en = Done \<and>
   (if filter (\<lambda>e. is_final_response e \<and> ev_content e \<noteq> None) evs = [] then qs = acc
    else \<exists>t. fragments (last (filter (\<lambda>e. is_final_response e \<and> ev_content e \<noteq> None) evs)) \<noteq> []
           \<and> hd (fragments (last (filter (\<lambda>e. is_final_response e \<and> ev_content e \<noteq> None) evs)))
               = Some t
           \<and> qs = parse_questions t)"
proof (induction evs arbitrary: acc)
  case Nil
  then show ?case by (cases en) simp_all
next
  case (Cons ev evs)
  show ?case
  proof (cases "is_final_response ev \<and> ev_content ev \<noteq> None")
    case True
    then obtain c where c: "ev_content ev = Some c" by auto
    with True Cons.prems obtain p ps t where p: "parts c = Some (p # ps)" "part_text p = Some t"
      "clarify_loop evs en (parse_questions t) = Inr qs"
      by (auto split: option.splits list.splits)
    have fr: "fragments ev = part_text p # map part_text ps"
      using c p(1) by (simp add: fragments_def or_empty_def)
    from Cons.IH [OF p(3)] True fr p(2) show ?thesis by auto
  next
    case False
    with Cons.prems have "clarify_loop evs en acc = Inr qs" by auto
    from Cons.IH [OF this] False show ?thesis by auto
  qed
qed

lemma strip_letter: "\<not> is_space c \<Longrightarrow> strip [c] = [c]"
  by (simp add: strip_def)

lemma letters_not_space:
  "\<not> is_space 97" "\<not> is_space 98" "\<not> is_space 99" "\<not> is_space 112" "\<not> is_space 113"
  "\<not> is_space 120" "\<not> is_space 121" "\<not> is_space 122"
  by (simp_all add: is_space_def)

lemma demo_parse: "parse_questions [112, 10, 120, 10, 121, 10, 122] = [[112], [120], [121], [122]]"
  by (simp add: parse_questions_def split_nl_def strip_letter letters_not_space)

lemma one_parse: "parse_questions [112, 10, 120] = [[112], [120]]"
  by (simp add: parse_questions_def split_nl_def strip_letter letters_not_space)

lemma calls_of_waiting:
  "calls_of (tr @ [SendTyping, CreateSession a b]) = calls_of tr"
  by (simp add: calls_of_append)

lemma demo_query_turn:
  assumes "stage d = None \<or> stage d = Some WAITING_QUERY"
  shows "handle_text demo_service uid t d tr =
     (None,
      d\<lparr>stage := Some ASKING, questions := Some [[120], [121], [122]], query := Some (strip t),
        answers := Some [], q_idx := Some 0\<rparr>,
      tr @ [SendTyping, CreateSession uid (py ''tg_'' @ uid),
            RunAsync \<lparr>runner = Clarify, user_id = uid, session_id = py ''tg_'' @ uid,
                      new_message = Some (strip t)\<rparr>,
            ReplyText [120]])"
  by (simp add: handle_text_waiting [OF assms] handle_waiting_query_def demo_service_def
      Let_def demo_parse py_index_def)

lemma demo_run0:
  "fst (dispatch demo_service [49] (cleared, tr) (TextMessage [113])) = demo_asking [] 0"
proof -
  have "stage cleared = None \<or> stage cleared = Some WAITING_QUERY" by (simp add: cleared_def)
  from demo_query_turn [OF this] show ?thesis
    by (simp add: cleared_def demo_asking_def strip_letter letters_not_space)
qed

lemma demo_run1:
  assumes "fst s = demo_asking [] 0"
  shows "fst (dispatch demo_service [49] s (TextMessage [97])) = demo_asking [([120], [97])] 1"
proof -
  obtain tr where s: "s = (demo_asking [] 0, tr)" using assms by (cases s) simp
  have "handle_text demo_service [49] [97] (demo_asking [] 0) tr =
     (None, (demo_asking [] 0)\<lparr>answers := Some (dict_set [] [120] (strip [97])), q_idx := Some (0 + 1)\<rparr>,
      tr @ [ReplyText [121]])"
    by (rule asking_turn_early [where qs = "[[120], [121], [122]]"])
       (simp_all add: demo_asking_def py_index_def)
  then show ?thesis
    by (simp add: s demo_asking_def strip_letter letters_not_space)
qed

lemma demo_run2:
  assumes "fst s = demo_asking [([120], [97])] 1"
  shows "fst (dispatch demo_service [49] s (TextMessage [98]))
     = demo_asking [([120], [97]), ([121], [98])] 2"
proof -
  obtain tr where s: "s = (demo_asking [([120], [97])] 1, tr)" using assms by (cases s) simp
  have "handle_text demo_service [49] [98] (demo_asking [([120], [97])] 1) tr =
     (None, (demo_asking [([120], [97])] 1)\<lparr>answers := Some (dict_set [([120], [97])] [121] (strip [98])),
         q_idx := Some (1 + 1)\<rparr>,
      tr @ [ReplyText [122]])"
    by (rule asking_turn_early [where qs = "[[120], [121], [122]]"])
       (simp_all add: demo_asking_def py_index_def)
  then show ?thesis
    by (simp add: s demo_asking_def strip_letter letters_not_space)
qed

lemma demo_run3:
  assumes "fst s = demo_asking [([120], [97]), ([121], [98])] 2"
  shows "fst (dispatch demo_service [49] s (TextMessage [99])) = demo_done EMAIL_DECISION"
proof -
  obtain tr where s: "s = (demo_asking [([120], [97]), ([121], [98])] 2, tr)"
    using assms by (cases s) simp
  have "fst (snd (handle_text demo_service [49] [99] (demo_asking [([120], [97]), ([121], [98])] 2) tr)) =
     (demo_asking [([120], [97]), ([121], [98])] 2)\<lparr>answers := Some (dict_set [([120], [97]), ([121], [98])] [122] (strip [99])),
         q_idx := Some (2 + 1), report := Some [112, 10, 120, 10, 121, 10, 122],
         stage := Some EMAIL_DECISION\<rparr>"
    by (subst asking_turn_last_ok [where qs = "[[120], [121], [122]]" and qry = "[113]"
          and ans = "[([120], [97]), ([121], [98])]" and cq = "[122]" and i = 2,
          OF _ _ _ _ _ _ _ demo_pipeline])
       (simp_all add: demo_asking_def py_index_def)
  then show ?thesis
    by (simp add: s demo_asking_def demo_done_def strip_letter letters_not_space)
qed

lemma demo_run4:
  assumes "fst s = demo_done EMAIL_DECISION"
  shows "fst (dispatch demo_service [49] s (TextMessage [110, 111])) = demo_done WAITING_QUERY"
proof -
  obtain tr where s: "s = (demo_done EMAIL_DECISION, tr)" using assms by (cases s) simp
  have "strip [110, 111] = [110, 111]" by (simp add: strip_def is_space_def)
  then show ?thesis
    by (simp add: s handle_text_def dict_get_def demo_done_def handle_email_decision_def
        lower_def py_def)
qed

lemma demo_to_decision:
  "fst (run_updates demo_service [49]
     [TextMessage [113], TextMessage [97], TextMessage [98], TextMessage [99]])
   = demo_done EMAIL_DECISION"
  unfolding run_updates_def foldl_Cons foldl_Nil
  by (rule demo_run3 [OF demo_run2 [OF demo_run1 [OF demo_run0]]])

lemma demo_back_to_waiting:
  "fst (run_updates demo_service [49]
     [TextMessage [113], TextMessage [97], TextMessage [98], TextMessage [99],
      TextMessage [110, 111]])
   = demo_done WAITING_QUERY"
  unfolding run_updates_def foldl_Cons foldl_Nil
  by (rule demo_run4 [OF demo_run3 [OF demo_run2 [OF demo_run1 [OF demo_run0]]]])

lemma waiting_query_turn:
  assumes st: "stage d = None \<or> stage d = Some WAITING_QUERY"
    and cl: "clarify_loop
        (fst (svc (calls_of tr) \<lparr>runner = Clarify, user_id = uid, session_id = py ''tg_'' @ uid,
                                   new_message = Some (strip t)\<rparr>))
        (snd (svc (calls_of tr) \<lparr>runner = Clarify, user_id = uid, session_id = py ''tg_'' @ uid,
                                   new_message = Some (strip t)\<rparr>)) [] = Inr qs"
  shows "handle_text svc uid t d tr =
     (case py_index (drop 1 qs) 0 of Inl e \<Rightarrow> Some e | Inr q0 \<Rightarrow> None,
      d\<lparr>stage := Some ASKING, questions := Some (drop 1 qs), query := Some (strip t),
        answers := Some [], q_idx := Some 0\<rparr>,
      (tr @ [SendTyping, CreateSession uid (py ''tg_'' @ uid),
            RunAsync \<lparr>runner = Clarify, user_id = uid, session_id = py ''tg_'' @ uid,
                      new_message = Some (strip t)\<rparr>])
        @ (case py_index (drop 1 qs) 0 of Inl e \<Rightarrow> [] | Inr q0 \<Rightarrow> [ReplyText q0]))"
  using cl
  by (simp add: handle_text_waiting [OF st] handle_waiting_query_def Let_def calls_of_append
      split: sum.splits)

lemma asking_single_question:
  assumes "stage d = Some ASKING" and "q_idx d = Some 0" and "questions d = Some [q]"
    and "answers d = Some ans"
  shows "fst (handle_text svc uid t d tr) = Some IndexError"
  using assms by (simp add: handle_text_asking handle_asking_def py_index_def)

text \<open>
  Claim C8. In the stage \<open>WAITING_QUERY\<close>, when the clarify run ends normally, the
  questions are the stripped non-blank lines of the first fragment of the last final
  event with a content, cut at newlines, without the first of them. When fewer than two
  questions remain, an index access raises \<open>IndexError\<close>: with none, in the
  \<open>WAITING_QUERY\<close> handler itself, after the session was set to \<open>ASKING\<close>; with one,
  that handler returns and every next text raises in the \<open>ASKING\<close> handler.
\<close>

theorem clarify_too_few_questions:
  assumes st: "stage d = None \<or> stage d = Some WAITING_QUERY"
    and cl: "clarify_loop
        (fst (svc (calls_of tr) \<lparr>runner = Clarify, user_id = uid, session_id = py ''tg_'' @ uid,
                                   new_message = Some (strip t)\<rparr>))
        (snd (svc (calls_of tr) \<lparr>runner = Clarify, user_id = uid, session_id = py ''tg_'' @ uid,
                                   new_message = Some (strip t)\<rparr>)) [] = Inr qs"
    and few: "length (drop 1 qs) < 2"
    and run: "handle_text svc uid t d tr = (r1, d1, tr1)"
  shows "stage d1 = Some ASKING \<and> questions d1 = Some (drop 1 qs)
       \<and> (filter (\<lambda>e. is_final_response e \<and> ev_content e \<noteq> None)
             (fst (svc (calls_of tr) \<lparr>runner = Clarify, user_id = uid,
                    session_id = py ''tg_'' @ uid, new_message = Some (strip t)\<rparr>)) = []
            \<longrightarrow> qs = [])
       \<and> (filter (\<lambda>e. is_final_response e \<and> ev_content e \<noteq> None)
             (fst (svc (calls_of tr) \<lparr>runner = Clarify, user_id = uid,
                    session_id = py ''tg_'' @ uid, new_message = Some (strip t)\<rparr>)) \<noteq> []
            \<longrightarrow> (\<exists>txt. hd (fragments (last (filter (\<lambda>e. is_final_response e \<and> ev_content e \<noteq> None)
                     (fst (svc (calls_of tr) \<lparr>runner = Clarify, user_id = uid,
                        session_id = py ''tg_'' @ uid, new_message = Some (strip t)\<rparr>)))))
                      = Some txt
                   \<and> qs = map strip (filter (\<lambda>q. strip q \<noteq> []) (split_nl txt))))
       \<and> (drop 1 qs = [] \<longrightarrow> r1 = Some IndexError)
       \<and> (drop 1 qs \<noteq> [] \<longrightarrow>
            r1 = None \<and> (\<forall>t2. fst (handle_text svc uid t2 d1 tr1) = Some IndexError))"
proof -
  note turn = waiting_query_turn [where svc = svc and tr = tr and uid = uid and t = t and d = d, OF st cl]
  from turn run have d1: "d1 = d\<lparr>stage := Some ASKING, questions := Some (drop 1 qs),
        query := Some (strip t), answers := Some [], q_idx := Some 0\<rparr>"
    and r1: "r1 = (case py_index (drop 1 qs) 0 of Inl e \<Rightarrow> Some e | Inr q0 \<Rightarrow> None)"
    by simp_all
  have f1: "stage d1 = Some ASKING" and f2: "questions d1 = Some (drop 1 qs)"
    by (simp_all add: d1)
  note last = clarify_loop_last [OF cl]
  have none: "filter (\<lambda>e. is_final_response e \<and> ev_content e \<noteq> None)
             (fst (svc (calls_of tr) \<lparr>runner = Clarify, user_id = uid,
                    session_id = py ''tg_'' @ uid, new_message = Some (strip t)\<rparr>)) = []
            \<longrightarrow> qs = []"
    using last by simp
  have some: "filter (\<lambda>e. is_final_response e \<and> ev_content e \<noteq> None)
             (fst (svc (calls_of tr) \<lparr>runner = Clarify, user_id = uid,
                    session_id = py ''tg_'' @ uid, new_message = Some (strip t)\<rparr>)) \<noteq> []
            \<longrightarrow> (\<exists>txt. hd (fragments (last (filter (\<lambda>e. is_final_response e \<and> ev_content e \<noteq> None)
                     (fst (svc (calls_of tr) \<lparr>runner = Clarify, user_id = uid,
                        session_id = py ''tg_'' @ uid, new_message = Some (strip t)\<rparr>)))))
                      = Some txt
                   \<and> qs = map strip (filter (\<lambda>q. strip q \<noteq> []) (split_nl txt)))"
    using last by (auto simp: parse_questions_def)
  have zero: "drop 1 qs = [] \<longrightarrow> r1 = Some IndexError"
    by (simp add: r1 py_index_def)
  have one: "drop 1 qs \<noteq> [] \<longrightarrow>
            r1 = None \<and> (\<forall>t2. fst (handle_text svc uid t2 d1 tr1) = Some IndexError)"
  proof
    assume ne: "drop 1 qs \<noteq> []"
    with few obtain q where q: "drop 1 qs = [q]"
      by (cases "drop 1 qs"; cases "tl (drop 1 qs)") auto
    have "r1 = None" unfolding r1 q by (simp add: py_index_def)
    moreover have "\<forall>t2. fst (handle_text svc uid t2 d1 tr1) = Some IndexError"
    proof
      fix t2
      show "fst (handle_text svc uid t2 d1 tr1) = Some IndexError"
        by (rule asking_single_question [where q = q and ans = "[]"])
           (simp_all add: d1 q [symmetric])
    qed
    ultimately show "r1 = None \<and> (\<forall>t2. fst (handle_text svc uid t2 d1 tr1) = Some IndexError)"
      by simp
  qed
  show ?thesis
    by (rule conjI [OF f1 conjI [OF f2 conjI [OF none conjI [OF some conjI [OF zero one]]]]])
qed

lemma pipeline_first_call:
  "create_report_pipline svc uid qry ans tr0 = (res, tr') \<Longrightarrow>
   take (length tr0 + 1) tr' =
     tr0 @ [RunAsync \<lparr>runner = Refine, user_id = uid, session_id = py ''tg_'' @ uid,
                      new_message = Some (combined_query qry ans)\<rparr>]"
  by (auto simp: create_report_pipline_def Let_def split: sum.splits option.splits)

lemma take_append_full: "take n xs = p \<Longrightarrow> length p = n \<Longrightarrow> take n (xs @ ys) = p"
  by (metis append_Nil2 diff_is_0_eq' length_take min_def nat_le_linear take0 take_all_iff take_append)

text \<open>
  Claim C5, as the code has it. From a session in \<open>ASKING\<close> with three distinct
  questions, index 0 and no answer, three text turns give: after the first and the
  second the handler has returned, the stage is \<open>ASKING\<close>, the index is 1 and 2, and the
  next question was sent; after the third the index is 3 and the answers are the three
  stripped texts keyed by the three questions in the order asked; the third turn calls
  the pipeline (its first runner call follows the notice and the typing action). When
  the pipeline returns a report, the handler returns, the stage is \<open>EMAIL_DECISION\<close> and
  the report is stored; when the pipeline raises, the exception leaves the handler, the
  stage stays \<open>ASKING\<close> and the report is as before.
\<close>

theorem asking_three_answers:
  assumes st: "stage d = Some ASKING" and qs: "questions d = Some [q1, q2, q3]"
    and dist: "distinct [q1, q2, q3]"
    and idx: "q_idx d = Some 0" and ans: "answers d = Some []" and qry: "query d = Some qry"
    and t1: "handle_text svc uid t1 d tr = (r1, d1, tr1)"
    and t2: "handle_text svc uid t2 d1 tr1 = (r2, d2, tr2)"
    and t3: "handle_text svc uid t3 d2 tr2 = (r3, d3, tr3)"
  shows "r1 = None \<and> stage d1 = Some ASKING \<and> q_idx d1 = Some 1
       \<and> answers d1 = Some [(q1, strip t1)] \<and> tr1 = tr @ [ReplyText q2]
       \<and> r2 = None \<and> stage d2 = Some ASKING \<and> q_idx d2 = Some 2
       \<and> answers d2 = Some [(q1, strip t1), (q2, strip t2)] \<and> tr2 = tr1 @ [ReplyText q3]
       \<and> q_idx d3 = Some 3
       \<and> answers d3 = Some [(q1, strip t1), (q2, strip t2), (q3, strip t3)]
       \<and> take (length tr2 + 3) tr3
             = tr2 @ [ReplyText msg_working, SendTyping,
                      RunAsync \<lparr>runner = Refine, user_id = uid, session_id = py ''tg_'' @ uid,
                        new_message = Some (combined_query qry
                          [(q1, strip t1), (q2, strip t2), (q3, strip t3)])\<rparr>]
       \<and> (r3 = None \<longrightarrow>
            stage d3 = Some EMAIL_DECISION
          \<and> (\<exists>rep tr'. create_report_pipline svc uid qry
                   [(q1, strip t1), (q2, strip t2), (q3, strip t3)]
                   (tr2 @ [ReplyText msg_working, SendTyping]) = (Inr rep, tr')
                \<and> report d3 = Some rep
                \<and> tr3 = tr' @ map (\<lambda>chunk. ReplyMarkdownV2 (escape_markdown chunk))
                                  (split_message rep 4096)
                            @ [ReplyText msg_email_question]))
       \<and> (\<forall>rep tr'. create_report_pipline svc uid qry
                   [(q1, strip t1), (q2, strip t2), (q3, strip t3)]
                   (tr2 @ [ReplyText msg_working, SendTyping]) = (Inr rep, tr')
              \<longrightarrow> r3 = None \<and> stage d3 = Some EMAIL_DECISION \<and> report d3 = Some rep
                \<and> tr3 = tr' @ map (\<lambda>chunk. ReplyMarkdownV2 (escape_markdown chunk))
                                  (split_message rep 4096)
                            @ [ReplyText msg_email_question])
       \<and> (\<forall>e tr'. create_report_pipline svc uid qry
                   [(q1, strip t1), (q2, strip t2), (q3, strip t3)]
                   (tr2 @ [ReplyText msg_working, SendTyping]) = (Inl e, tr')
              \<longrightarrow> r3 = Some e \<and> stage d3 = Some ASKING \<and> report d3 = report d
                \<and> tr3 = tr')"
proof -
  from dist have ne: "q1 \<noteq> q2" "q1 \<noteq> q3" "q2 \<noteq> q3" by auto
  have "handle_text svc uid t1 d tr =
     (None, d\<lparr>answers := Some (dict_set [] q1 (strip t1)), q_idx := Some (0 + 1)\<rparr>,
      tr @ [ReplyText q2])"
    by (rule asking_turn_early [where qs = "[q1, q2, q3]"])
       (simp_all add: st idx qs ans py_index_def)
  with t1 have r1: "r1 = None" and tr1: "tr1 = tr @ [ReplyText q2]"
    and d1: "d1 = d\<lparr>answers := Some [(q1, strip t1)], q_idx := Some 1\<rparr>"
    by simp_all
  have "handle_text svc uid t2 d1 tr1 =
     (None, d1\<lparr>answers := Some (dict_set [(q1, strip t1)] q2 (strip t2)), q_idx := Some (1 + 1)\<rparr>,
      tr1 @ [ReplyText q3])"
    by (rule asking_turn_early [where qs = "[q1, q2, q3]"])
       (simp_all add: d1 st qs py_index_def)
  with t2 ne have r2: "r2 = None" and tr2: "tr2 = tr1 @ [ReplyText q3]"
    and d2: "d2 = d1\<lparr>answers := Some [(q1, strip t1), (q2, strip t2)], q_idx := Some 2\<rparr>"
    by simp_all
  let ?ans = "[(q1, strip t1), (q2, strip t2), (q3, strip t3)]"
  have set3: "dict_set [(q1, strip t1), (q2, strip t2)] q3 (strip t3) = ?ans"
    using ne by simp
  have pre: "stage d2 = Some ASKING" "q_idx d2 = Some 2" "questions d2 = Some [q1, q2, q3]"
    "answers d2 = Some [(q1, strip t1), (q2, strip t2)]" "\<not> (2::int) < 2" "query d2 = Some qry"
    "py_index [q1, q2, q3] 2 = Inr q3"
    by (simp_all add: d2 d1 st qs qry py_index_def)
  obtain res tr' where pipe: "create_report_pipline svc uid qry ?ans
      (tr2 @ [ReplyText msg_working, SendTyping]) = (res, tr')"
    by (cases "create_report_pipline svc uid qry ?ans (tr2 @ [ReplyText msg_working, SendTyping])")
  have first_call: "take (length tr2 + 3) tr' =
      tr2 @ [ReplyText msg_working, SendTyping,
             RunAsync \<lparr>runner = Refine, user_id = uid, session_id = py ''tg_'' @ uid,
                       new_message = Some (combined_query qry ?ans)\<rparr>]"
    using pipeline_first_call [OF pipe] by (simp add: numeral_3_eq_3)
  show ?thesis
  proof (cases res)
    case (Inl e)
    have "handle_text svc uid t3 d2 tr2 =
       (Some e, d2\<lparr>answers := Some ?ans, q_idx := Some (2 + 1)\<rparr>, tr')"
      by (rule asking_turn_last_fail [where t = t3, OF pre, unfolded set3, OF pipe [unfolded Inl]])
    with t3 have r3: "r3 = Some e" and tr3: "tr3 = tr'"
      and d3: "d3 = d2\<lparr>answers := Some ?ans, q_idx := Some 3\<rparr>"
      by simp_all
    have trig: "take (length tr2 + 3) tr3 =
      tr2 @ [ReplyText msg_working, SendTyping,
             RunAsync \<lparr>runner = Refine, user_id = uid, session_id = py ''tg_'' @ uid,
                       new_message = Some (combined_query qry ?ans)\<rparr>]"
      using first_call by (simp add: tr3)
    have ok: "\<forall>rep tr''. create_report_pipline svc uid qry ?ans
                   (tr2 @ [ReplyText msg_working, SendTyping]) = (Inr rep, tr'')
              \<longrightarrow> r3 = None \<and> stage d3 = Some EMAIL_DECISION \<and> report d3 = Some rep
                \<and> tr3 = tr'' @ map (\<lambda>chunk. ReplyMarkdownV2 (escape_markdown chunk))
                                  (split_message rep 4096)
                            @ [ReplyText msg_email_question]"
      by (simp add: pipe [unfolded Inl])
    have bad: "\<forall>e' tr''. create_report_pipline svc uid qry ?ans
                   (tr2 @ [ReplyText msg_working, SendTyping]) = (Inl e', tr'')
              \<longrightarrow> r3 = Some e' \<and> stage d3 = Some ASKING \<and> report d3 = report d
                \<and> tr3 = tr''"
      by (simp add: pipe [unfolded Inl] r3 tr3 d3 d2 d1 st)
    have old: "r3 \<noteq> None" by (simp add: r3)
    from r1 r2 tr1 tr2 trig old ok bad show ?thesis
      by (simp add: d1 d2 d3 st)
  next
    case (Inr rep)
    have "handle_text svc uid t3 d2 tr2 =
       (None, d2\<lparr>answers := Some ?ans,
                 q_idx := Some (2 + 1), report := Some rep, stage := Some EMAIL_DECISION\<rparr>,
        tr' @ map (\<lambda>chunk. ReplyMarkdownV2 (escape_markdown chunk)) (split_message rep 4096)
            @ [ReplyText msg_email_question])"
      by (rule asking_turn_last_ok [where t = t3, OF pre, unfolded set3, OF pipe [unfolded Inr]])
    with t3 have r3: "r3 = None"
      and tr3: "tr3 = tr' @ map (\<lambda>chunk. ReplyMarkdownV2 (escape_markdown chunk))
            (split_message rep 4096) @ [ReplyText msg_email_question]"
      and d3: "d3 = d2\<lparr>answers := Some ?ans, q_idx := Some 3, report := Some rep,
                       stage := Some EMAIL_DECISION\<rparr>"
      by simp_all
    have trig: "take (length tr2 + 3) tr3 =
      tr2 @ [ReplyText msg_working, SendTyping,
             RunAsync \<lparr>runner = Refine, user_id = uid, session_id = py ''tg_'' @ uid,
                       new_message = Some (combined_query qry ?ans)\<rparr>]"
      unfolding tr3 by (rule take_append_full [OF first_call]) simp
    have fin: "\<exists>rep tr'. create_report_pipline svc uid qry ?ans
                   (tr2 @ [ReplyText msg_working, SendTyping]) = (Inr rep, tr')
                \<and> report d3 = Some rep
                \<and> tr3 = tr' @ map (\<lambda>chunk. ReplyMarkdownV2 (escape_markdown chunk))
                                  (split_message rep 4096)
                            @ [ReplyText msg_email_question]"
      using pipe [unfolded Inr] tr3 by (simp add: d3)
    have ok: "\<forall>rep' tr''. create_report_pipline svc uid qry ?ans
                   (tr2 @ [ReplyText msg_working, SendTyping]) = (Inr rep', tr'')
              \<longrightarrow> r3 = None \<and> stage d3 = Some EMAIL_DECISION \<and> report d3 = Some rep'
                \<and> tr3 = tr'' @ map (\<lambda>chunk. ReplyMarkdownV2 (escape_markdown chunk))
                                  (split_message rep' 4096)
                            @ [ReplyText msg_email_question]"
      by (simp add: pipe [unfolded Inr] r3 tr3 d3)
    have bad: "\<forall>e tr''. create_report_pipline svc uid qry ?ans
                   (tr2 @ [ReplyText msg_working, SendTyping]) = (Inl e, tr'')
              \<longrightarrow> r3 = Some e \<and> stage d3 = Some ASKING \<and> report d3 = report d
                \<and> tr3 = tr''"
      by (simp add: pipe [unfolded Inr])
    have st3: "stage d3 = Some EMAIL_DECISION" by (simp add: d3)
    show ?thesis
      using r1 r2 tr1 tr2 trig r3 st3 fin ok bad
      by (simp add: d1 d2 d3 st)
  qed
qed

lemma demo_turn1:
  "handle_text demo_service [49] [97] (demo_asking [] 0) tr =
     (None, demo_asking [([120], [97])] 1, tr @ [ReplyText [121]])"
proof -
  have "handle_text demo_service [49] [97] (demo_asking [] 0) tr =
     (None, (demo_asking [] 0)\<lparr>answers := Some (dict_set [] [120] (strip [97])), q_idx := Some (0 + 1)\<rparr>,
      tr @ [ReplyText [121]])"
    by (rule asking_turn_early [where qs = "[[120], [121], [122]]"])
       (simp_all add: demo_asking_def py_index_def)
  then show ?thesis
    by (simp add: demo_asking_def strip_letter letters_not_space)
qed

lemma demo_turn2:
  "handle_text demo_service [49] [98] (demo_asking [([120], [97])] 1) tr =
     (None, demo_asking [([120], [97]), ([121], [98])] 2, tr @ [ReplyText [122]])"
proof -
  have "handle_text demo_service [49] [98] (demo_asking [([120], [97])] 1) tr =
     (None, (demo_asking [([120], [97])] 1)\<lparr>answers := Some (dict_set [([120], [97])] [121] (strip [98])),
         q_idx := Some (1 + 1)\<rparr>,
      tr @ [ReplyText [122]])"
    by (rule asking_turn_early [where qs = "[[120], [121], [122]]"])
       (simp_all add: demo_asking_def py_index_def)
  then show ?thesis
    by (simp add: demo_asking_def strip_letter letters_not_space)
qed

lemma demo_turn3:
  "handle_text demo_service [49] [99] (demo_asking [([120], [97]), ([121], [98])] 2) tr =
     (None, demo_done EMAIL_DECISION,
      (tr @ [ReplyText msg_working, SendTyping]
          @ [RunAsync \<lparr>runner = Refine, user_id = [49], session_id = py ''tg_'' @ [49],
                        new_message = Some (combined_query [113]
                          [([120], [97]), ([121], [98]), ([122], [99])])\<rparr>,
             RunAsync \<lparr>runner = Planner, user_id = [49], session_id = py ''tg_'' @ [49],
                        new_message = Some [112, 10, 120, 10, 121, 10, 122]\<rparr>,
             RunAsync \<lparr>runner = Search, user_id = [49], session_id = py ''tg_'' @ [49],
                        new_message = Some [112, 10, 120, 10, 121, 10, 122]\<rparr>,
             RunAsync \<lparr>runner = Writer, user_id = [49], session_id = py ''tg_'' @ [49],
                        new_message = Some [112, 10, 120, 10, 121, 10, 122]\<rparr>])
        @ map (\<lambda>chunk. ReplyMarkdownV2 (escape_markdown chunk))
              (split_message [112, 10, 120, 10, 121, 10, 122] 4096)
        @ [ReplyText msg_email_question])"
proof -
  have "handle_text demo_service [49] [99] (demo_asking [([120], [97]), ([121], [98])] 2) tr =
     (None,
      (demo_asking [([120], [97]), ([121], [98])] 2)\<lparr>answers := Some (dict_set [([120], [97]), ([121], [98])] [122] (strip [99])),
         q_idx := Some (2 + 1), report := Some [112, 10, 120, 10, 121, 10, 122],
         stage := Some EMAIL_DECISION\<rparr>,
      ((tr @ [ReplyText msg_working, SendTyping])
          @ [RunAsync \<lparr>runner = Refine, user_id = [49], session_id = py ''tg_'' @ [49],
                        new_message = Some (combined_query [113]
                          (dict_set [([120], [97]), ([121], [98])] [122] (strip [99])))\<rparr>,
             RunAsync \<lparr>runner = Planner, user_id = [49], session_id = py ''tg_'' @ [49],
                        new_message = Some [112, 10, 120, 10, 121, 10, 122]\<rparr>,
             RunAsync \<lparr>runner = Search, user_id = [49], session_id = py ''tg_'' @ [49],
                        new_message = Some [112, 10, 120, 10, 121, 10, 122]\<rparr>,
             RunAsync \<lparr>runner = Writer, user_id = [49], session_id = py ''tg_'' @ [49],
                        new_message = Some [112, 10, 120, 10, 121, 10, 122]\<rparr>])
        @ map (\<lambda>chunk. ReplyMarkdownV2 (escape_markdown chunk))
              (split_message [112, 10, 120, 10, 121, 10, 122] 4096)
        @ [ReplyText msg_email_question])"
    by (rule asking_turn_last_ok [where qs = "[[120], [121], [122]]" and qry = "[113]"
          and ans = "[([120], [97]), ([121], [98])]" and cq = "[122]" and i = 2,
          OF _ _ _ _ _ _ _ demo_pipeline])
       (simp_all add: demo_asking_def py_index_def)
  then show ?thesis
    by (simp add: demo_asking_def demo_done_def strip_letter letters_not_space)
qed

theorem asking_three_answers_witness:
  "stage (demo_asking [] 0) = Some ASKING
   \<and> questions (demo_asking [] 0) = Some [[120], [121], [122]]
   \<and> distinct [[120], [121], [122 :: nat]]
   \<and> q_idx (demo_asking [] 0) = Some 0
   \<and> answers (demo_asking [] 0) = Some []
   \<and> query (demo_asking [] 0) = Some [113]
   \<and> handle_text demo_service [49] [97] (demo_asking [] 0) [] =
       (None, demo_asking [([120], [97])] 1, [ReplyText [121]])
   \<and> handle_text demo_service [49] [98] (demo_asking [([120], [97])] 1) [ReplyText [121]] =
       (None, demo_asking [([120], [97]), ([121], [98])] 2, [ReplyText [121], ReplyText [122]])
   \<and> fst (handle_text demo_service [49] [99] (demo_asking [([120], [97]), ([121], [98])] 2)
         [ReplyText [121], ReplyText [122]]) = None
   \<and> fst (snd (handle_text demo_service [49] [99] (demo_asking [([120], [97]), ([121], [98])] 2)
         [ReplyText [121], ReplyText [122]])) = demo_done EMAIL_DECISION
   \<and> stage (demo_done EMAIL_DECISION) = Some EMAIL_DECISION
   \<and> q_idx (demo_done EMAIL_DECISION) = Some 3
   \<and> answers (demo_done EMAIL_DECISION)
       = Some [([120], strip [97]), ([121], strip [98]), ([122], strip [99])]
   \<and> report (demo_done EMAIL_DECISION) = Some [112, 10, 120, 10, 121, 10, 122]"
proof -
  have pre: "stage (demo_asking [] 0) = Some ASKING"
    "questions (demo_asking [] 0) = Some [[120], [121], [122]]"
    "distinct [[120], [121], [122 :: nat]]"
    "q_idx (demo_asking [] 0) = Some 0"
    "answers (demo_asking [] 0) = Some []"
    "query (demo_asking [] 0) = Some [113]"
    by (simp_all add: demo_asking_def)
  have h1: "handle_text demo_service [49] [97] (demo_asking [] 0) [] =
       (None, demo_asking [([120], [97])] 1, [ReplyText [121]])"
    using demo_turn1 [of "[]"] by simp
  have h2: "handle_text demo_service [49] [98] (demo_asking [([120], [97])] 1) [ReplyText [121]] =
       (None, demo_asking [([120], [97]), ([121], [98])] 2, [ReplyText [121], ReplyText [122]])"
    using demo_turn2 [of "[ReplyText [121]]"] by simp
  obtain tr3 where h3: "handle_text demo_service [49] [99]
        (demo_asking [([120], [97]), ([121], [98])] 2) [ReplyText [121], ReplyText [122]] =
       (None, demo_done EMAIL_DECISION, tr3)"
    using demo_turn3 [of "[ReplyText [121], ReplyText [122]]"] by blast
  note concl = asking_three_answers [OF pre h1 h2 h3]
  have rep: "report (demo_done EMAIL_DECISION) = Some [112, 10, 120, 10, 121, 10, 122]"
    by (simp add: demo_done_def)
  from concl have "stage (demo_done EMAIL_DECISION) = Some EMAIL_DECISION"
    and "q_idx (demo_done EMAIL_DECISION) = Some 3"
    and "answers (demo_done EMAIL_DECISION)
       = Some [([120], strip [97]), ([121], strip [98]), ([122], strip [99])]"
    by simp_all
  with pre h1 h2 h3 rep show ?thesis by simp
qed

lemma refine_fails_turn1:
  "handle_text refine_fails [49] [97] (demo_asking [] 0) tr =
     (None, demo_asking [([120], [97])] 1, tr @ [ReplyText [121]])"
proof -
  have "handle_text refine_fails [49] [97] (demo_asking [] 0) tr =
     (None, (demo_asking [] 0)\<lparr>answers := Some (dict_set [] [120] (strip [97])), q_idx := Some (0 + 1)\<rparr>,
      tr @ [ReplyText [121]])"
    by (rule asking_turn_early [where qs = "[[120], [121], [122]]"])
       (simp_all add: demo_asking_def py_index_def)
  then show ?thesis
    by (simp add: demo_asking_def strip_letter letters_not_space)
qed

lemma refine_fails_turn2:
  "handle_text refine_fails [49] [98] (demo_asking [([120], [97])] 1) tr =
     (None, demo_asking [([120], [97]), ([121], [98])] 2, tr @ [ReplyText [122]])"
proof -
  have "handle_text refine_fails [49] [98] (demo_asking [([120], [97])] 1) tr =
     (None, (demo_asking [([120], [97])] 1)\<lparr>answers := Some (dict_set [([120], [97])] [121] (strip [98])),
         q_idx := Some (1 + 1)\<rparr>,
      tr @ [ReplyText [122]])"
    by (rule asking_turn_early [where qs = "[[120], [121], [122]]"])
       (simp_all add: demo_asking_def py_index_def)
  then show ?thesis
    by (simp add: demo_asking_def strip_letter letters_not_space)
qed

lemma refine_fails_turn3:
  "handle_text refine_fails [49] [99] (demo_asking [([120], [97]), ([121], [98])] 2) tr =
     (Some (External 7), demo_asking [([120], [97]), ([121], [98]), ([122], [99])] 3,
      tr @ [ReplyText msg_working, SendTyping,
            RunAsync \<lparr>runner = Refine, user_id = [49], session_id = py ''tg_'' @ [49],
              new_message = Some (combined_query [113]
                [([120], [97]), ([121], [98]), ([122], [99])])\<rparr>])"
proof -
  have "handle_text refine_fails [49] [99] (demo_asking [([120], [97]), ([121], [98])] 2) tr =
     (Some (External 7),
      (demo_asking [([120], [97]), ([121], [98])] 2)\<lparr>answers := Some (dict_set [([120], [97]), ([121], [98])] [122] (strip [99])),
         q_idx := Some (2 + 1)\<rparr>,
      (tr @ [ReplyText msg_working, SendTyping])
        @ [RunAsync \<lparr>runner = Refine, user_id = [49], session_id = py ''tg_'' @ [49],
              new_message = Some (combined_query [113]
                (dict_set [([120], [97]), ([121], [98])] [122] (strip [99])))\<rparr>])"
    by (rule asking_turn_last_fail [where qs = "[[120], [121], [122]]" and qry = "[113]"])
       (simp_all add: demo_asking_def py_index_def refine_fails_pipeline)
  then show ?thesis
    by (simp add: demo_asking_def strip_letter letters_not_space)
qed

text \<open>
  Claim C5 fails as stated: with a reasoning service that raises in the refine stage,
  three answers to three distinct questions are all recorded and the index is 3, but
  the third turn raises and the stage is still \<open>ASKING\<close>, not \<open>EMAIL_DECISION\<close>.
\<close>

theorem three_answers_no_transition_counterexample:
  "stage (demo_asking [] 0) = Some ASKING
   \<and> questions (demo_asking [] 0) = Some [[120], [121], [122]]
   \<and> distinct [[120], [121], [122 :: nat]]
   \<and> handle_text refine_fails [49] [97] (demo_asking [] 0) [] =
       (None, demo_asking [([120], [97])] 1, [ReplyText [121]])
   \<and> handle_text refine_fails [49] [98] (demo_asking [([120], [97])] 1) [ReplyText [121]] =
       (None, demo_asking [([120], [97]), ([121], [98])] 2, [ReplyText [121], ReplyText [122]])
   \<and> handle_text refine_fails [49] [99] (demo_asking [([120], [97]), ([121], [98])] 2)
         [ReplyText [121], ReplyText [122]] =
       (Some (External 7), demo_asking [([120], [97]), ([121], [98]), ([122], [99])] 3,
        [ReplyText [121], ReplyText [122], ReplyText msg_working, SendTyping,
         RunAsync \<lparr>runner = Refine, user_id = [49], session_id = py ''tg_'' @ [49],
           new_message = Some (combined_query [113]
             [([120], [97]), ([121], [98]), ([122], [99])])\<rparr>])
   \<and> stage (demo_asking [([120], [97]), ([121], [98]), ([122], [99])] 3) = Some ASKING
   \<and> q_idx (demo_asking [([120], [97]), ([121], [98]), ([122], [99])] 3) = Some 3"
proof -
  have h1: "handle_text refine_fails [49] [97] (demo_asking [] 0) [] =
       (None, demo_asking [([120], [97])] 1, [ReplyText [121]])"
    using refine_fails_turn1 [of "[]"] by simp
  have h2: "handle_text refine_fails [49] [98] (demo_asking [([120], [97])] 1) [ReplyText [121]] =
       (None, demo_asking [([120], [97]), ([121], [98])] 2, [ReplyText [121], ReplyText [122]])"
    using refine_fails_turn2 [of "[ReplyText [121]]"] by simp
  have h3: "handle_text refine_fails [49] [99] (demo_asking [([120], [97]), ([121], [98])] 2)
         [ReplyText [121], ReplyText [122]] =
       (Some (External 7), demo_asking [([120], [97]), ([121], [98]), ([122], [99])] 3,
        [ReplyText [121], ReplyText [122], ReplyText msg_working, SendTyping,
         RunAsync \<lparr>runner = Refine, user_id = [49], session_id = py ''tg_'' @ [49],
           new_message = Some (combined_query [113]
             [([120], [97]), ([121], [98]), ([122], [99])])\<rparr>])"
    using refine_fails_turn3 [of "[ReplyText [121], ReplyText [122]]"] by simp
  from h1 h2 h3 show ?thesis by (simp add: demo_asking_def)
qed

text \<open>
  Claim C6 fails as stated: after a query, three answers and the reply \<open>no\<close> the stage
  is \<open>WAITING_QUERY\<close> and the report is still defined.
\<close>

theorem report_after_decline_counterexample:
  "stage (fst (run_updates demo_service [49]
       [TextMessage [113], TextMessage [97], TextMessage [98], TextMessage [99],
        TextMessage [110, 111]])) = Some WAITING_QUERY
   \<and> report (fst (run_updates demo_service [49]
       [TextMessage [113], TextMessage [97], TextMessage [98], TextMessage [99],
        TextMessage [110, 111]])) = Some [112, 10, 120, 10, 121, 10, 122]"
  by (simp add: demo_back_to_waiting demo_done_def)

theorem report_defined_in_email_stages_witness:
  "stage (fst (run_updates demo_service [49]
       [TextMessage [113], TextMessage [97], TextMessage [98], TextMessage [99]]))
     = Some EMAIL_DECISION
   \<and> report (fst (run_updates demo_service [49]
       [TextMessage [113], TextMessage [97], TextMessage [98], TextMessage [99]])) \<noteq> None
   \<and> stage (demo_done EMAIL_DECISION) = Some EMAIL_DECISION
   \<and> dict_get (stage (demo_done EMAIL_DECISION)) WAITING_QUERY \<noteq> ASKING
   \<and> report (demo_done EMAIL_DECISION) \<noteq> None
   \<and> report (fst (snd (handle_text demo_service [49] [110, 111] (demo_done EMAIL_DECISION) [])))
       = report (demo_done EMAIL_DECISION)
   \<and> report (fst (snd (handle_text demo_service [49] [110, 111] (demo_done EMAIL_DECISION) [])))
       \<noteq> None
   \<and> report (fst (run_updates demo_service [49]
       ([TextMessage [113], TextMessage [97], TextMessage [98], TextMessage [99]]
        @ map TextMessage [[110, 111], [113]]))) \<noteq> None
   \<and> report (fst (run_updates demo_service [49]
       ([TextMessage [113], TextMessage [97], TextMessage [98], TextMessage [99]]
        @ [StartCommand]))) = None
   \<and> report (fst (run_updates demo_service [49]
       ([TextMessage [113], TextMessage [97], TextMessage [98], TextMessage [99]]
        @ [CancelCommand]))) = None"
proof -
  have st: "stage (fst (run_updates demo_service [49]
       [TextMessage [113], TextMessage [97], TextMessage [98], TextMessage [99]]))
     = Some EMAIL_DECISION"
    by (simp add: demo_to_decision demo_done_def)
  have st': "stage (demo_done EMAIL_DECISION) = Some EMAIL_DECISION"
    "dict_get (stage (demo_done EMAIL_DECISION)) WAITING_QUERY \<noteq> ASKING"
    "report (demo_done EMAIL_DECISION) \<noteq> None"
    by (simp_all add: demo_done_def dict_get_def)
  note inst = report_defined_in_email_stages [where svc = demo_service and uid = "[49]"
      and us = "[TextMessage [113], TextMessage [97], TextMessage [98], TextMessage [99]]"
      and d = "demo_done EMAIL_DECISION" and t = "[110, 111]" and tr = "[]"
      and ts = "[[110, 111], [113]]"]
  from inst st have defined: "report (fst (run_updates demo_service [49]
       [TextMessage [113], TextMessage [97], TextMessage [98], TextMessage [99]])) \<noteq> None"
    by blast
  from inst st' have same: "report (fst (snd (handle_text demo_service [49] [110, 111]
       (demo_done EMAIL_DECISION) []))) = report (demo_done EMAIL_DECISION)"
    and kept: "report (fst (snd (handle_text demo_service [49] [110, 111]
       (demo_done EMAIL_DECISION) []))) \<noteq> None"
    by blast+
  from inst defined have later: "report (fst (run_updates demo_service [49]
       ([TextMessage [113], TextMessage [97], TextMessage [98], TextMessage [99]]
        @ map TextMessage [[110, 111], [113]]))) \<noteq> None"
    by blast
  from inst have cleared: "report (fst (run_updates demo_service [49]
       ([TextMessage [113], TextMessage [97], TextMessage [98], TextMessage [99]]
        @ [StartCommand]))) = None"
    "report (fst (run_updates demo_service [49]
       ([TextMessage [113], TextMessage [97], TextMessage [98], TextMessage [99]]
        @ [CancelCommand]))) = None"
    by blast+
  from st defined st' same kept later cleared show ?thesis by (intro conjI)
qed

text \<open>
  Claim C7 fails as stated: with a reasoning service that raises in the refine stage,
  the last answer leaves the session in \<open>ASKING\<close> with index 3, and nothing is sent
  after the notice that the report is being worked on.
\<close>

theorem pipeline_failure_counterexample:
  "handle_text refine_fails [49] [99] asking2 [] =
   (Some (External 7),
    \<lparr>stage = Some ASKING, questions = Some [[120], [121], [122]], query = Some [113],
     answers = Some [([120], [97]), ([121], [98]), ([122], [99])], q_idx = Some 3,
     report = None\<rparr>,
    [ReplyText msg_working, SendTyping,
     RunAsync \<lparr>runner = Refine, user_id = [49], session_id = py ''tg_'' @ [49],
       new_message = Some (combined_query [113] [([120], [97]), ([121], [98]), ([122], [99])])\<rparr>])"
  by (rule refine_fails_turn)

theorem asking_pipeline_failure_witness:
  "stage asking2 = Some ASKING \<and> q_idx asking2 = Some 2 \<and> \<not> (2::int) < 2
   \<and> questions asking2 = Some [[120], [121], [122]]
   \<and> py_index [[120], [121], [122 :: nat]] 2 = Inr [122]
   \<and> answers asking2 = Some [([120], [97]), ([121], [98])]
   \<and> query asking2 = Some [113]
   \<and> create_report_pipline refine_fails [49] [113]
        (dict_set [([120], [97]), ([121], [98])] [122] (strip [99]))
        ([] @ [ReplyText msg_working, SendTyping])
      = (Inl (External 7),
         ([] @ [ReplyText msg_working, SendTyping])
           @ [RunAsync \<lparr>runner = Refine, user_id = [49], session_id = py ''tg_'' @ [49],
                new_message = Some (combined_query [113]
                  (dict_set [([120], [97]), ([121], [98])] [122] (strip [99])))\<rparr>])
   \<and> handle_text refine_fails [49] [99] asking2 [] =
       (Some (External 7),
        asking2\<lparr>answers := Some (dict_set [([120], [97]), ([121], [98])] [122] (strip [99])),
                q_idx := Some (2 + 1)\<rparr>,
        ([] @ [ReplyText msg_working, SendTyping])
           @ [RunAsync \<lparr>runner = Refine, user_id = [49], session_id = py ''tg_'' @ [49],
                new_message = Some (combined_query [113]
                  (dict_set [([120], [97]), ([121], [98])] [122] (strip [99])))\<rparr>])
   \<and> stage (asking2\<lparr>answers := Some (dict_set [([120], [97]), ([121], [98])] [122] (strip [99])),
                q_idx := Some (2 + 1)\<rparr>) = Some ASKING
   \<and> report (asking2\<lparr>answers := Some (dict_set [([120], [97]), ([121], [98])] [122] (strip [99])),
                q_idx := Some (2 + 1)\<rparr>) = report asking2"
proof -
  have pre: "stage asking2 = Some ASKING" "q_idx asking2 = Some 2" "\<not> (2::int) < 2"
    "questions asking2 = Some [[120], [121], [122]]"
    "py_index [[120], [121], [122 :: nat]] 2 = Inr [122]"
    "answers asking2 = Some [([120], [97]), ([121], [98])]"
    "query asking2 = Some [113]"
    by (simp_all add: asking2_def py_index_def)
  note pipe = refine_fails_pipeline [of "[49]" "[113]"
      "dict_set [([120], [97]), ([121], [98])] [122] (strip [99])"
      "[] @ [ReplyText msg_working, SendTyping]"]
  note concl = asking_pipeline_failure [OF pre pipe]
  from concl pre pipe show ?thesis by blast
qed

lemma one_question_clarify:
  "clarify_loop
     (fst (one_question (calls_of []) \<lparr>runner = Clarify, user_id = [49],
            session_id = py ''tg_'' @ [49], new_message = Some (strip [113])\<rparr>))
     (snd (one_question (calls_of []) \<lparr>runner = Clarify, user_id = [49],
            session_id = py ''tg_'' @ [49], new_message = Some (strip [113])\<rparr>)) []
   = Inr [[112], [120]]"
  by (simp add: one_question_def one_parse)

lemma two_fragments_clarify:
  "clarify_loop
     (fst (two_fragments (calls_of []) \<lparr>runner = Clarify, user_id = [49],
            session_id = py ''tg_'' @ [49], new_message = Some (strip [113])\<rparr>))
     (snd (two_fragments (calls_of []) \<lparr>runner = Clarify, user_id = [49],
            session_id = py ''tg_'' @ [49], new_message = Some (strip [113])\<rparr>)) []
   = Inr [[97]]"
  by (simp add: two_fragments_def parse_questions_def split_nl_def strip_letter letters_not_space)

lemma cleared_waiting: "stage cleared = None \<or> stage cleared = Some WAITING_QUERY"
  by (simp add: cleared_def)

lemma one_question_turn:
  "handle_text one_question [49] [113] cleared [] =
     (None, one_asking,
      [SendTyping, CreateSession [49] (py ''tg_'' @ [49]),
       RunAsync \<lparr>runner = Clarify, user_id = [49], session_id = py ''tg_'' @ [49],
                 new_message = Some [113]\<rparr>,
       ReplyText [120]])"
  using waiting_query_turn [where svc = one_question and tr = "[]" and uid = "[49]"
      and t = "[113]" and d = cleared, OF cleared_waiting one_question_clarify]
  by (simp add: py_index_def cleared_def one_asking_def strip_letter letters_not_space)

theorem clarify_too_few_questions_witness:
  "(stage cleared = None \<or> stage cleared = Some WAITING_QUERY)
   \<and> clarify_loop
     (fst (one_question (calls_of []) \<lparr>runner = Clarify, user_id = [49],
            session_id = py ''tg_'' @ [49], new_message = Some (strip [113])\<rparr>))
     (snd (one_question (calls_of []) \<lparr>runner = Clarify, user_id = [49],
            session_id = py ''tg_'' @ [49], new_message = Some (strip [113])\<rparr>)) []
     = Inr [[112], [120]]
   \<and> length (drop 1 [[112], [120 :: nat]]) < 2
   \<and> handle_text one_question [49] [113] cleared [] =
     (None, one_asking,
      [SendTyping, CreateSession [49] (py ''tg_'' @ [49]),
       RunAsync \<lparr>runner = Clarify, user_id = [49], session_id = py ''tg_'' @ [49],
                 new_message = Some [113]\<rparr>,
       ReplyText [120]])
   \<and> stage one_asking = Some ASKING
   \<and> questions one_asking = Some [[120]]
   \<and> fst (handle_text one_question [49] [97] one_asking
       [SendTyping, CreateSession [49] (py ''tg_'' @ [49]),
        RunAsync \<lparr>runner = Clarify, user_id = [49], session_id = py ''tg_'' @ [49],
                  new_message = Some [113]\<rparr>,
        ReplyText [120]]) = Some IndexError
   \<and> length (drop 1 [[97 :: nat]]) < 2
   \<and> fst (handle_text two_fragments [49] [113] cleared []) = Some IndexError"
proof -
  have few: "length (drop 1 [[112], [120 :: nat]]) < 2" "length (drop 1 [[97 :: nat]]) < 2"
    by simp_all
  note one = clarify_too_few_questions [where svc = one_question and tr = "[]" and uid = "[49]"
      and t = "[113]" and d = cleared, OF cleared_waiting one_question_clarify few(1)
      one_question_turn]
  obtain r d tr where zero_run: "handle_text two_fragments [49] [113] cleared [] = (r, d, tr)"
    by (cases "handle_text two_fragments [49] [113] cleared []")
  note zero = clarify_too_few_questions [where svc = two_fragments and tr = "[]" and uid = "[49]"
      and t = "[113]" and d = cleared, OF cleared_waiting two_fragments_clarify few(2) zero_run]
  from zero have z: "fst (handle_text two_fragments [49] [113] cleared []) = Some IndexError"
    by (simp add: zero_run)
  from one have o: "stage one_asking = Some ASKING" "questions one_asking = Some [[120]]"
    "fst (handle_text one_question [49] [97] one_asking
       [SendTyping, CreateSession [49] (py ''tg_'' @ [49]),
        RunAsync \<lparr>runner = Clarify, user_id = [49], session_id = py ''tg_'' @ [49],
                  new_message = Some [113]\<rparr>,
        ReplyText [120]]) = Some IndexError"
    by simp_all
  from cleared_waiting one_question_clarify few one_question_turn o z show ?thesis
    by (intro conjI)
qed

lemma strip_address: "strip [97, 64, 98] = [97, 64, 98]"
  by (simp add: strip_def is_space_def)

text \<open>
  Claim C9 fails as stated: with an email run that raises, a message with \<open>@\<close> calls
  the email runner, but the exception leaves the handler, no confirmation is sent and
  the stage is still \<open>EMAIL_ADDR\<close>.
\<close>

theorem email_run_raises_counterexample:
  "64 \<in> set [97, 64, 98 :: nat]
   \<and> stage (demo_done EMAIL_ADDR) = Some EMAIL_ADDR
   \<and> handle_text email_fails [49] [97, 64, 98] (demo_done EMAIL_ADDR) [] =
       (Some (External 9), demo_done EMAIL_ADDR,
        [SendTyping,
         RunAsync \<lparr>runner = Email, user_id = [49], session_id = py ''tg_'' @ [49],
           new_message = Some (py ''Report to send:'' @ [10, 10]
              @ [112, 10, 120, 10, 121, 10, 122] @ [10, 10]
              @ py ''E-mail address: '' @ [97, 64, 98])\<rparr>])"
  by (simp add: handle_text_def handle_email_addr_def dict_get_def demo_done_def Let_def
      strip_address email_prompt_def email_fails_def)

theorem email_address_turn_witness:
  "stage (demo_done EMAIL_ADDR) = Some EMAIL_ADDR
   \<and> 64 \<notin> set [97 :: nat]
   \<and> handle_text demo_service [49] [97] (demo_done EMAIL_ADDR) [] =
       (None, demo_done EMAIL_ADDR, [] @ [ReplyText msg_not_an_address])
   \<and> 64 \<in> set [97, 64, 98 :: nat]
   \<and> report (demo_done EMAIL_ADDR) = Some [112, 10, 120, 10, 121, 10, 122]
   \<and> demo_service (calls_of [])
        \<lparr>runner = Email, user_id = [49], session_id = py ''tg_'' @ [49],
          new_message = Some (py ''Report to send:'' @ [10, 10]
             @ [112, 10, 120, 10, 121, 10, 122] @ [10, 10]
             @ py ''E-mail address: '' @ strip [97, 64, 98])\<rparr>
       = ([\<lparr>is_final_response = True,
            ev_content = Some (Content (Some [Part (Some [112, 10, 120, 10, 121, 10, 122])]))\<rparr>],
          Done)
   \<and> handle_text demo_service [49] [97, 64, 98] (demo_done EMAIL_ADDR) [] =
       (None, (demo_done EMAIL_ADDR)\<lparr>stage := Some WAITING_QUERY\<rparr>,
        [] @ [SendTyping,
              RunAsync \<lparr>runner = Email, user_id = [49], session_id = py ''tg_'' @ [49],
                new_message = Some (py ''Report to send:'' @ [10, 10]
                   @ [112, 10, 120, 10, 121, 10, 122] @ [10, 10]
                   @ py ''E-mail address: '' @ strip [97, 64, 98])\<rparr>,
              ReplyText msg_sent])
   \<and> email_fails (calls_of [])
        \<lparr>runner = Email, user_id = [49], session_id = py ''tg_'' @ [49],
          new_message = Some (py ''Report to send:'' @ [10, 10]
             @ [112, 10, 120, 10, 121, 10, 122] @ [10, 10]
             @ py ''E-mail address: '' @ strip [97, 64, 98])\<rparr>
       = ([], Raise (External 9))
   \<and> handle_text email_fails [49] [97, 64, 98] (demo_done EMAIL_ADDR) [] =
       (Some (External 9), demo_done EMAIL_ADDR,
        [] @ [SendTyping,
              RunAsync \<lparr>runner = Email, user_id = [49], session_id = py ''tg_'' @ [49],
                new_message = Some (py ''Report to send:'' @ [10, 10]
                   @ [112, 10, 120, 10, 121, 10, 122] @ [10, 10]
                   @ py ''E-mail address: '' @ strip [97, 64, 98])\<rparr>])
   \<and> stage (demo_asking [] 0\<lparr>stage := Some EMAIL_ADDR\<rparr>) = Some EMAIL_ADDR
   \<and> report (demo_asking [] 0\<lparr>stage := Some EMAIL_ADDR\<rparr>) = None
   \<and> handle_text demo_service [49] [97, 64, 98] (demo_asking [] 0\<lparr>stage := Some EMAIL_ADDR\<rparr>) []
       = (Some KeyError, demo_asking [] 0\<lparr>stage := Some EMAIL_ADDR\<rparr>, [] @ [SendTyping])"
proof -
  let ?c = "\<lparr>runner = Email, user_id = [49], session_id = py ''tg_'' @ [49],
          new_message = Some (py ''Report to send:'' @ [10, 10]
             @ [112, 10, 120, 10, 121, 10, 122] @ [10, 10]
             @ py ''E-mail address: '' @ strip [97, 64, 98])\<rparr>"
  have st: "stage (demo_done EMAIL_ADDR) = Some EMAIL_ADDR"
    and rep: "report (demo_done EMAIL_ADDR) = Some [112, 10, 120, 10, 121, 10, 122]"
    by (simp_all add: demo_done_def)
  have st0: "stage (demo_asking [] 0\<lparr>stage := Some EMAIL_ADDR\<rparr>) = Some EMAIL_ADDR"
    and rep0: "report (demo_asking [] 0\<lparr>stage := Some EMAIL_ADDR\<rparr>) = None"
    by (simp_all add: demo_asking_def)
  have no_at: "64 \<notin> set [97 :: nat]" and at: "64 \<in> set [97, 64, 98 :: nat]" by simp_all
  have run_ok: "demo_service (calls_of []) ?c
       = ([\<lparr>is_final_response = True,
            ev_content = Some (Content (Some [Part (Some [112, 10, 120, 10, 121, 10, 122])]))\<rparr>],
          Done)"
    by (simp add: demo_service_def)
  have run_bad: "email_fails (calls_of []) ?c = ([], Raise (External 9))"
    by (simp add: email_fails_def)
  note rejected = email_address_turn [OF st refl, where message_text = "[97]"
      and svc = demo_service and uid = "[49]" and tr = "[]"]
  note sent = email_address_turn [OF st refl, where message_text = "[97, 64, 98]"
      and svc = demo_service and uid = "[49]" and tr = "[]"
      and rep = "[112, 10, 120, 10, 121, 10, 122]"
      and evs = "[\<lparr>is_final_response = True,
            ev_content = Some (Content (Some [Part (Some [112, 10, 120, 10, 121, 10, 122])]))\<rparr>]"
      and en = Done]
  note raised = email_address_turn [OF st refl, where message_text = "[97, 64, 98]"
      and svc = email_fails and uid = "[49]" and tr = "[]"
      and rep = "[112, 10, 120, 10, 121, 10, 122]" and evs = "[]" and e = "External 9"]
  note missing = email_address_turn [OF st0 refl, where message_text = "[97, 64, 98]"
      and svc = demo_service and uid = "[49]" and tr = "[]"]
  from rejected no_at have r: "handle_text demo_service [49] [97] (demo_done EMAIL_ADDR) [] =
       (None, demo_done EMAIL_ADDR, [] @ [ReplyText msg_not_an_address])"
    by blast
  from sent at rep run_ok
  have s: "handle_text demo_service [49] [97, 64, 98] (demo_done EMAIL_ADDR) [] =
       (None, (demo_done EMAIL_ADDR)\<lparr>stage := Some WAITING_QUERY\<rparr>,
        [] @ [SendTyping, RunAsync ?c, ReplyText msg_sent])"
    by simp
  from raised at rep run_bad
  have f: "handle_text email_fails [49] [97, 64, 98] (demo_done EMAIL_ADDR) [] =
       (Some (External 9), demo_done EMAIL_ADDR, [] @ [SendTyping, RunAsync ?c])"
    by simp
  from missing at rep0
  have k: "handle_text demo_service [49] [97, 64, 98] (demo_asking [] 0\<lparr>stage := Some EMAIL_ADDR\<rparr>) []
       = (Some KeyError, demo_asking [] 0\<lparr>stage := Some EMAIL_ADDR\<rparr>, [] @ [SendTyping])"
    by blast
  from st no_at r at rep run_ok s run_bad f st0 rep0 k show ?thesis by (intro conjI)
qed

end
